theory Spec2Isabelle
  imports Complex_Main
begin

section \<open>The store: tables of init.sql\<close>

text \<open>
  Values as the bot sees them through the pg driver. A UUID is its canonical lower-case
  text (what \<^verbatim>\<open>crypto.randomUUID()\<close> returns and what the driver hands back for a
  UUID column). A \<^verbatim>\<open>TIMESTAMPTZ\<close> is a number of microseconds since the epoch. A
  \<^verbatim>\<open>NUMERIC(10, 2)\<close> is the integer number of hundredths it denotes, so 29.00 is 2900; a
  value of that type lies strictly between -10^10 and 10^10 hundredths.
\<close>

type_synonym uuid = string
type_synonym timestamptz = int
type_synonym numeric_10_2 = int

datatype sub_status = active | expired | banned

record tariff =
  t_id :: int
  t_name :: string
  t_price :: numeric_10_2
  t_speed_limit_mbps :: int
  t_xray_level :: int

record server =
  srv_id :: uuid
  srv_slug :: string
  srv_ip_address :: string
  srv_domain :: string
  srv_api_secret :: string
  srv_api_port :: int
  srv_grpc_port :: "int option"
  srv_public_key :: string
  srv_short_ids :: "string list"
  srv_max_users :: int
  srv_is_enabled :: bool
  srv_created_at :: timestamptz
  srv_updated_at :: timestamptz

text \<open>
  \<^verbatim>\<open>users.username\<close>, \<^verbatim>\<open>full_name\<close>, \<^verbatim>\<open>language\<close> and \<^verbatim>\<open>balance\<close> carry no
  \<^verbatim>\<open>NOT NULL\<close>: \<open>None\<close> is SQL's NULL.
\<close>

record user =
  u_id :: uuid
  u_tg_id :: int
  u_username :: "string option"
  u_full_name :: "string option"
  u_language :: "string option"
  u_balance :: "numeric_10_2 option"
  u_created_at :: timestamptz
  u_updated_at :: timestamptz

record subscription =
  sub_id :: uuid
  sub_user_id :: uuid
  sub_server_id :: uuid
  sub_tariff_id :: int
  sub_xray_uuid :: uuid
  sub_email :: string
  sub_status :: sub_status
  sub_expire_date :: timestamptz
  sub_created_at :: timestamptz
  sub_updated_at :: timestamptz

text \<open>The database state: each table is the list of its rows.\<close>

record db =
  tariffs :: "tariff list"
  servers :: "server list"
  users :: "user list"
  subscriptions :: "subscription list"

section \<open>The view \<^verbatim>\<open>view_server_load\<close>\<close>

text \<open>
  \<^verbatim>\<open>COUNT(sub.id)\<close> over the left join
  \<^verbatim>\<open>ON s.id = sub.server_id AND sub.status = 'active'\<close>: the number of active
  subscriptions placed on the server.
\<close>

definition current_users :: "db \<Rightarrow> uuid \<Rightarrow> int" where
  "current_users d sid =
     int (length (filter (\<lambda>sub. sid = sub_server_id sub \<and> sub_status sub = active)
                         (subscriptions d)))"

text \<open>
  \<^verbatim>\<open>ROUND(x, 1)\<close> on a numeric: to one decimal place, a tie going away from zero.
\<close>

definition ROUND1 :: "rat \<Rightarrow> rat" where
  "ROUND1 x = sgn x * of_int \<lfloor>\<bar>x\<bar> * 10 + 1 / 2\<rfloor> / 10"

record server_load =
  v_id :: uuid
  v_slug :: string
  v_ip_address :: string
  v_max_users :: int
  v_current_users :: int
  v_slots_available :: int
  v_load_percentage :: rat

text \<open>
  One row for each row of \<^verbatim>\<open>servers\<close> (the view groups by the primary key), whatever
  its \<^verbatim>\<open>is_enabled\<close>. The quotient is taken exactly: PostgreSQL's numeric quotient
  keeps at least 16 significant digits, which for integer counts and limits rounds to
  the same first decimal. Where \<^verbatim>\<open>max_users\<close> is 0 the quotient raises in SQL and is 0
  here; such a row has no slot available and \<open>findBestServer\<close> drops it before its load
  is looked at.
\<close>

definition view_row :: "db \<Rightarrow> server \<Rightarrow> server_load" where
  "view_row d s =
     \<lparr> v_id = srv_id s,
       v_slug = srv_slug s,
       v_ip_address = srv_ip_address s,
       v_max_users = srv_max_users s,
       v_current_users = current_users d (srv_id s),
       v_slots_available = srv_max_users s - current_users d (srv_id s),
       v_load_percentage =
         ROUND1 (of_int (current_users d (srv_id s)) / of_int (srv_max_users s) * 100) \<rparr>"

definition view_server_load :: "db \<Rightarrow> server_load list" where
  "view_server_load d = map (view_row d) (servers d)"

section \<open>Database helpers of telegram_bot/index.js\<close>

text \<open>
  \<^verbatim>\<open>SELECT id FROM view_server_load WHERE slots_available > 0
  ORDER BY load_percentage ASC LIMIT 1\<close>, and \<^verbatim>\<open>res.rows[0]\<close>: \<open>None\<close> is JavaScript's
  \<^verbatim>\<open>undefined\<close> on an empty result. The first row of the ordered result is a row
  whose \<^verbatim>\<open>load_percentage\<close> is the least among the rows with a slot available. The
  query has no second sort key, and SQL leaves the order of rows with equal
  \<^verbatim>\<open>load_percentage\<close> open: which of several rows of least \<^verbatim>\<open>load_percentage\<close> comes
  first is the executor's choice. \<open>peer\<close> stands for that choice: of the rows of least
  \<^verbatim>\<open>load_percentage\<close>, taken in table order, the one at position \<open>peer\<close> modulo their
  number is returned. No value of \<open>peer\<close> is preferred.
\<close>

definition least_loaded :: "server_load list \<Rightarrow> server_load list" where
  "least_loaded rows =
     filter (\<lambda>r. \<forall>r' \<in> set rows. v_load_percentage r \<le> v_load_percentage r') rows"

definition findBestServer :: "db \<Rightarrow> nat \<Rightarrow> uuid option" where
  "findBestServer d peer =
     (case least_loaded (filter (\<lambda>r. v_slots_available r > 0) (view_server_load d)) of
        [] \<Rightarrow> None
      | r # rs \<Rightarrow> Some (v_id ((r # rs) ! (peer mod length (r # rs)))))"

text \<open>
  What the helpers and handlers can throw: a JavaScript \<^verbatim>\<open>TypeError\<close> on reading a
  property of \<^verbatim>\<open>undefined\<close>, the \<^verbatim>\<open>Error("Insufficient balance")\<close> of
  \<open>createSubscription\<close>, the errors the store raises on a statement that breaks a
  constraint of init.sql or the range of a \<^verbatim>\<open>NUMERIC(10, 2)\<close>, and the rejection of
  a \<^verbatim>\<open>ctx.reply\<close> whose message Telegram does not accept.
\<close>

datatype error =
  TypeError
| InsufficientBalance
| UniqueViolation
| ForeignKeyViolation
| NumericOverflow
| SendFailed

text \<open>
  What a call reads from outside the store: \<^verbatim>\<open>now()\<close> of the statement,
  the value of \<^verbatim>\<open>crypto.randomUUID()\<close>, and the value the column default
  \<^verbatim>\<open>gen_random_uuid()\<close> draws for the primary key of an inserted row.
\<close>

record env =
  env_now :: timestamptz
  env_randomUUID :: uuid
  env_gen_random_uuid :: uuid

text \<open>
  \<^verbatim>\<open>INSERT INTO users (tg_id, username) VALUES ($1, $2)
  ON CONFLICT (tg_id) DO UPDATE SET username = $2 RETURNING *\<close>, and
  \<^verbatim>\<open>res.rows[0]\<close>. Without a row of that \<^verbatim>\<open>tg_id\<close> the row is inserted with the
  column defaults; a drawn primary key that is taken already breaks \<^verbatim>\<open>users_pkey\<close>,
  which is not the conflict target. With such a row, that row is updated and the trigger
  \<^verbatim>\<open>users_updated_at\<close> sets its \<^verbatim>\<open>updated_at\<close>.
\<close>

definition createUser :: "db \<Rightarrow> int \<Rightarrow> string option \<Rightarrow> env \<Rightarrow> error + (user \<times> db)" where
  "createUser d tgId username e =
     (case find (\<lambda>u. u_tg_id u = tgId) (users d) of
        None \<Rightarrow>
          if env_gen_random_uuid e \<in> set (map u_id (users d)) then Inl UniqueViolation
          else
            let row = \<lparr> u_id = env_gen_random_uuid e,
                        u_tg_id = tgId,
                        u_username = username,
                        u_full_name = None,
                        u_language = Some ''en'',
                        u_balance = Some 0,
                        u_created_at = env_now e,
                        u_updated_at = env_now e \<rparr>
            in Inr (row, d\<lparr>users := users d @ [row]\<rparr>)
      | Some old \<Rightarrow>
          let upd = (\<lambda>u. u\<lparr>u_username := username, u_updated_at := env_now e\<rparr>)
          in Inr (upd old,
                  d\<lparr>users := map (\<lambda>u. if u_tg_id u = tgId then upd u else u) (users d)\<rparr>))"

text \<open>\<^verbatim>\<open>SELECT * FROM tariffs ORDER BY price ASC\<close>.\<close>

definition getTariffs :: "db \<Rightarrow> tariff list" where
  "getTariffs d = sort_key t_price (tariffs d)"

text \<open>A JavaScript number that is an integer, as a template literal prints it.\<close>

function decimal :: "nat \<Rightarrow> string" where
  "decimal n =
     (if n < 10 then [char_of (48 + n)]
      else decimal (n div 10) @ [char_of (48 + n mod 10)])"
  by pat_completeness auto
termination
  by (relation "measure id") auto

declare decimal.simps [simp del]

definition toString :: "int \<Rightarrow> string" where
  "toString i = (if i < 0 then CHR ''-'' # decimal (nat (- i)) else decimal (nat i))"

definition fits_numeric_10_2 :: "int \<Rightarrow> bool" where
  "fits_numeric_10_2 v \<longleftrightarrow> \<bar>v\<bar> < 10 ^ 10"

text \<open>
  The \<^verbatim>\<open>WHERE\<close> clause of the debit,
  \<^verbatim>\<open>id = $2 AND balance >= $1\<close>: a NULL balance does not satisfy it.
\<close>

definition can_debit :: "numeric_10_2 \<Rightarrow> uuid \<Rightarrow> user \<Rightarrow> bool" where
  "can_debit price userId u \<longleftrightarrow>
     u_id u = userId \<and> (case u_balance u of None \<Rightarrow> False | Some b \<Rightarrow> b \<ge> price)"

text \<open>
  \<^verbatim>\<open>SET balance = balance - $1\<close> on one row, with the trigger
  \<^verbatim>\<open>users_updated_at\<close>.
\<close>

definition debit :: "numeric_10_2 \<Rightarrow> timestamptz \<Rightarrow> user \<Rightarrow> user" where
  "debit price now u =
     u\<lparr>u_balance := map_option (\<lambda>b. b - price) (u_balance u), u_updated_at := now\<rparr>"

text \<open>
  The row of the \<^verbatim>\<open>INSERT INTO subscriptions\<close>: the e-mail is
  \<^verbatim>\<open>user_${tariffId}_${xrayUuid.substring(0, 8)}\<close>, the expiry is
  \<^verbatim>\<open>now() + interval '${durationDays} days'\<close> (days of 24 hours: a session in UTC),
  the primary key and both timestamps are the column defaults.
\<close>

definition new_subscription :: "uuid \<Rightarrow> int \<Rightarrow> uuid \<Rightarrow> int \<Rightarrow> env \<Rightarrow> subscription" where
  "new_subscription userId tariffId serverId durationDays e =
     \<lparr> sub_id = env_gen_random_uuid e,
       sub_user_id = userId,
       sub_server_id = serverId,
       sub_tariff_id = tariffId,
       sub_xray_uuid = env_randomUUID e,
       sub_email = ''user_'' @ toString tariffId @ ''_'' @ take 8 (env_randomUUID e),
       sub_status = active,
       sub_expire_date = env_now e + durationDays * 86400000000,
       sub_created_at = env_now e,
       sub_updated_at = env_now e \<rparr>"

text \<open>
  \<^verbatim>\<open>INSERT INTO subscriptions\<close> against the constraints of the table: the primary
  key and \<^verbatim>\<open>uq_xray_uuid\<close> are checked as the row enters their indexes, the three
  foreign keys at the end of the statement.
\<close>

definition insert_subscription :: "db \<Rightarrow> subscription \<Rightarrow> error + db" where
  "insert_subscription d row =
     (if sub_id row \<in> set (map sub_id (subscriptions d)) then Inl UniqueViolation
      else if sub_xray_uuid row \<in> set (map sub_xray_uuid (subscriptions d))
        then Inl UniqueViolation
      else if sub_user_id row \<notin> set (map u_id (users d)) then Inl ForeignKeyViolation
      else if sub_server_id row \<notin> set (map srv_id (servers d)) then Inl ForeignKeyViolation
      else if sub_tariff_id row \<notin> set (map t_id (tariffs d)) then Inl ForeignKeyViolation
      else Inr (d\<lparr>subscriptions := subscriptions d @ [row]\<rparr>))"

text \<open>
  The statements of \<open>createSubscription\<close> between \<^verbatim>\<open>BEGIN\<close> and \<^verbatim>\<open>COMMIT\<close>, on
  the transaction's working state: the price (\<^verbatim>\<open>tRes.rows[0].price\<close>, a
  \<^verbatim>\<open>TypeError\<close> when the tariff is missing), the conditional debit (which raises when
  a new balance leaves the column's range, and whose \<^verbatim>\<open>rowCount\<close> of 0 throws), the
  insert.
\<close>

definition createSubscription_body :: "db \<Rightarrow> uuid \<Rightarrow> int \<Rightarrow> uuid \<Rightarrow> int \<Rightarrow> env \<Rightarrow> error + db" where
  "createSubscription_body d userId tariffId serverId durationDays e =
     (case find (\<lambda>t. t_id t = tariffId) (tariffs d) of
        None \<Rightarrow> Inl TypeError
      | Some t \<Rightarrow>
          let price = t_price t;
              matched = filter (can_debit price userId) (users d)
          in if \<exists>u \<in> set matched. \<not> fits_numeric_10_2 (the (u_balance u) - price)
             then Inl NumericOverflow
             else if length matched = 0 then Inl InsufficientBalance
             else insert_subscription
                    (d\<lparr>users := map (\<lambda>u. if can_debit price userId u
                                         then debit price (env_now e) u else u) (users d)\<rparr>)
                    (new_subscription userId tariffId serverId durationDays e))"

text \<open>
  \<open>createSubscription\<close>: \<^verbatim>\<open>COMMIT\<close> publishes the working state and returns
  \<^verbatim>\<open>true\<close>; the \<^verbatim>\<open>catch\<close> block's \<^verbatim>\<open>ROLLBACK\<close> restores the state at
  \<^verbatim>\<open>BEGIN\<close> and rethrows.
\<close>

definition createSubscription :: "db \<Rightarrow> uuid \<Rightarrow> int \<Rightarrow> uuid \<Rightarrow> int \<Rightarrow> env \<Rightarrow> (error + bool) \<times> db" where
  "createSubscription d userId tariffId serverId durationDays e =
     (let snapshot = d in
      case createSubscription_body d userId tariffId serverId durationDays e of
        Inr committed \<Rightarrow> (Inr True, committed)
      | Inl err \<Rightarrow> (Inl err, snapshot))"

section \<open>Handlers of telegram_bot/index.js\<close>

text \<open>The messages the buy handler sends.\<close>

datatype reply =
  ReplyInsufficientBalance numeric_10_2 "numeric_10_2 option"
| ReplyNoServers
| ReplySuccess string
| ReplyErrorProcessing

text \<open>
  \<^verbatim>\<open>parseFloat(ctx.user.balance) < parseFloat(plan.price)\<close>: the driver hands a
  numeric over as its decimal text, which a double orders as the numbers are ordered; a
  NULL balance parses to NaN, and every comparison with NaN is false.
\<close>

definition balance_below :: "numeric_10_2 option \<Rightarrow> numeric_10_2 \<Rightarrow> bool" where
  "balance_below balance price = (case balance of None \<Rightarrow> False | Some b \<Rightarrow> b < price)"

text \<open>
  What the buy handler meets outside the store and the transaction: the executor's
  choice among the servers of least \<^verbatim>\<open>load_percentage\<close>, and for each call of
  \<^verbatim>\<open>ctx.reply\<close> the handler makes, counted from 0, whether it resolves.
\<close>

record io =
  io_peer :: nat
  io_reply_resolves :: "nat \<Rightarrow> bool"

text \<open>
  \<^verbatim>\<open>await ctx.reply(...)\<close>, the \<open>i\<close>-th of the handler: the message is delivered, or
  the call rejects.
\<close>

definition ctx_reply :: "io \<Rightarrow> nat \<Rightarrow> reply \<Rightarrow> error + reply" where
  "ctx_reply w i message = (if io_reply_resolves w i then Inr message else Inl SendFailed)"

text \<open>
  \<^verbatim>\<open>bot.action(/^buy_(\d+)$/, ...)\<close> for the user row \<open>ctx_user\<close> the middleware
  stored in \<^verbatim>\<open>ctx.user\<close>; \<open>tariffId\<close> is the number the matched digits denote, to
  which \<^verbatim>\<open>t.id == tariffId\<close> converts them. The result is the message that reached
  the user last, or the exception the handler ends with, and the store it leaves. A
  missing plan makes \<^verbatim>\<open>plan.price\<close> throw. The \<^verbatim>\<open>try\<close> block holds
  \<open>createSubscription\<close> and the success message: an exception of either is caught and
  answered with the general error message, so a success message that is rejected after
  the \<^verbatim>\<open>COMMIT\<close> is followed by the error message while the purchase stands.
\<close>

definition buy_action :: "db \<Rightarrow> user \<Rightarrow> nat \<Rightarrow> env \<Rightarrow> io \<Rightarrow> (error + reply) \<times> db" where
  "buy_action d ctx_user tariffId e w =
     (case find (\<lambda>t. t_id t = int tariffId) (getTariffs d) of
        None \<Rightarrow> (Inl TypeError, d)
      | Some plan \<Rightarrow>
          if balance_below (u_balance ctx_user) (t_price plan)
          then (ctx_reply w 0 (ReplyInsufficientBalance (t_price plan) (u_balance ctx_user)), d)
          else
            (case findBestServer d (io_peer w) of
               None \<Rightarrow> (ctx_reply w 0 ReplyNoServers, d)
             | Some serverId \<Rightarrow>
                 (case createSubscription d (u_id ctx_user) (t_id plan) serverId 30 e of
                    (Inr _, d') \<Rightarrow>
                      (case ctx_reply w 0 (ReplySuccess (t_name plan)) of
                         Inr sent \<Rightarrow> (Inr sent, d')
                       | Inl _ \<Rightarrow> (ctx_reply w 1 ReplyErrorProcessing, d'))
                  | (Inl _, d') \<Rightarrow> (ctx_reply w 0 ReplyErrorProcessing, d'))))"

text \<open>
  An update that carries a purchase: the middleware registers the sender
  (\<^verbatim>\<open>ctx.user = await db.createUser(ctx.from.id, ctx.from.username)\<close>), then the buy
  handler runs on the state the middleware left.
\<close>

definition on_buy :: "db \<Rightarrow> int \<Rightarrow> string option \<Rightarrow> nat \<Rightarrow> env \<Rightarrow> env \<Rightarrow> io \<Rightarrow> (error + reply) \<times> db" where
  "on_buy d from_id from_username tariffId e_mw e w =
     (case createUser d from_id from_username e_mw of
        Inl err \<Rightarrow> (Inl err, d)
      | Inr (ctx_user, d1) \<Rightarrow> buy_action d1 ctx_user tariffId e w)"

text \<open>
  \<^verbatim>\<open>bot.action("menu_deposit", ...)\<close>: the comment \<^verbatim>\<open>user-${ctx.user.tg_id}\<close> and the
  transfer link for 1 TON; the handler sends them with a QR code and issues no query.
\<close>

record deposit_reply =
  dep_comment :: string
  dep_link :: string

definition menu_deposit :: "db \<Rightarrow> user \<Rightarrow> string \<Rightarrow> deposit_reply \<times> db" where
  "menu_deposit d ctx_user ADMIN_WALLET =
     (let comment = ''user-'' @ toString (u_tg_id ctx_user);
          amountTon = 1 :: int
      in (\<lparr> dep_comment = comment,
            dep_link = ''ton://transfer/'' @ ADMIN_WALLET @ ''?amount=''
                       @ toString (amountTon * 1000000000) @ ''&text='' @ comment \<rparr>,
          d))"

text \<open>
  The callback of \<^verbatim>\<open>setInterval(async () => { ... }, 60000)\<close>: its body holds
  comments only, so one tick hands the store back as it found it.
\<close>

definition paymentWatcherTick :: "db \<Rightarrow> db" where
  "paymentWatcherTick d = d"

section \<open>Sequences of operations\<close>

text \<open>
  What the bot does to the store, one operation after another: the helpers that write,
  an update carrying a purchase, the deposit menu and a tick of the payment watcher.
  An operation that throws leaves the state its last committed statement left.
\<close>

datatype op =
  OpCreateUser int "string option" env
| OpCreateSubscription uuid int uuid int env
| OpBuy int "string option" nat env env io
| OpMenuDeposit user string
| OpTick

fun apply_op :: "db \<Rightarrow> op \<Rightarrow> db" where
  "apply_op d (OpCreateUser tgId username e) =
     (case createUser d tgId username e of Inl _ \<Rightarrow> d | Inr (_, d') \<Rightarrow> d')"
| "apply_op d (OpCreateSubscription userId tariffId serverId durationDays e) =
     snd (createSubscription d userId tariffId serverId durationDays e)"
| "apply_op d (OpBuy from_id from_username tariffId e_mw e w) =
     snd (on_buy d from_id from_username tariffId e_mw e w)"
| "apply_op d (OpMenuDeposit ctx_user wallet) = snd (menu_deposit d ctx_user wallet)"
| "apply_op d OpTick = paymentWatcherTick d"

definition run :: "db \<Rightarrow> op list \<Rightarrow> db" where
  "run d ops = foldl apply_op d ops"

text \<open>The constraint \<^verbatim>\<open>uq_xray_uuid\<close> as a property of a state.\<close>

definition xray_uuid_unique :: "db \<Rightarrow> bool" where
  "xray_uuid_unique d \<longleftrightarrow> distinct (map sub_xray_uuid (subscriptions d))"

section \<open>Components described by the specification only\<close>

text \<open>
  Modelled from the spec: the Expiry Sweeper (section 4.4), of which the sources hold
  only the columns \<^verbatim>\<open>status\<close> and \<^verbatim>\<open>expire_date\<close> it works on. A subscription is due
  when it is \<^verbatim>\<open>active\<close> and its "expiry timestamp has passed" at sweep time.
\<close>

definition sweep_due :: "timestamptz \<Rightarrow> subscription \<Rightarrow> bool" where
  "sweep_due now s \<longleftrightarrow> sub_status s = active \<and> sub_expire_date s < now"

text \<open>
  Modelled from the spec: the sweeper's "one conditional update (status stays
  \<^verbatim>\<open>active\<close> guard)" on one row (the Expiry Sweeper is not among the sources); the
  trigger \<^verbatim>\<open>subscriptions_updated_at\<close> of init.sql fires on the rows it changes.
\<close>

definition sweep_row :: "timestamptz \<Rightarrow> subscription \<Rightarrow> subscription" where
  "sweep_row now s =
     (if sweep_due now s then s\<lparr>sub_status := expired, sub_updated_at := now\<rparr> else s)"

text \<open>
  Modelled from the spec: one run of the Expiry Sweeper (not among the sources), which
  updates the table and enqueues "a targeted Reconciler trigger for each transitioned
  subscription's node": the result is the list of those nodes and the new state.
\<close>

definition expirySweep :: "timestamptz \<Rightarrow> db \<Rightarrow> uuid list \<times> db" where
  "expirySweep now d =
     (map sub_server_id (filter (sweep_due now) (subscriptions d)),
      d\<lparr>subscriptions := map (sweep_row now) (subscriptions d)\<rparr>)"

text \<open>
  Modelled from the spec: the proxy node behind the node management RPC (section 6),
  which is not among the sources: its state is the list of credentials it has loaded,
  each with the tier and label it was added with.
\<close>

record credential =
  cred_id :: uuid
  cred_tier :: int
  cred_label :: string

type_synonym node = "credential list"

text \<open>
  Modelled from the spec: the answers of the node management RPC (not among the
  sources), \<^verbatim>\<open>AddUser(credentialId, tier, label) -> ok|alreadyExists\<close> and
  \<^verbatim>\<open>RemoveUser(credentialId) -> ok|notFound\<close>.
\<close>

datatype add_response = AddOk | AlreadyExists
datatype remove_response = RemoveOk | NotFound

text \<open>
  Modelled from the spec: \<^verbatim>\<open>AddUser\<close> of the node management RPC (the node is not
  among the sources): a credential that is loaded already is reported and not loaded
  again.
\<close>

definition AddUser :: "node \<Rightarrow> uuid \<Rightarrow> int \<Rightarrow> string \<Rightarrow> add_response \<times> node" where
  "AddUser n credentialId tier label =
     (if credentialId \<in> set (map cred_id n) then (AlreadyExists, n)
      else (AddOk, n @ [\<lparr>cred_id = credentialId, cred_tier = tier, cred_label = label\<rparr>]))"

text \<open>
  Modelled from the spec: \<^verbatim>\<open>RemoveUser\<close> of the node management RPC (the node is not
  among the sources): an absent credential is reported.
\<close>

definition RemoveUser :: "node \<Rightarrow> uuid \<Rightarrow> remove_response \<times> node" where
  "RemoveUser n credentialId =
     (if credentialId \<in> set (map cred_id n)
      then (RemoveOk, filter (\<lambda>c. cred_id c \<noteq> credentialId) n)
      else (NotFound, n))"

text \<open>
  Modelled from the spec: \<^verbatim>\<open>ListUsers() -> [credentialId]\<close> of the node management
  RPC (the node is not among the sources).
\<close>

definition ListUsers :: "node \<Rightarrow> uuid list" where
  "ListUsers n = map cred_id n"

text \<open>
  Modelled from the spec: the failures of the Node Client (section 4.1, not among the
  sources), and what can happen to one attempt of a call: it reaches the node, the node
  "cannot be contacted within a bounded timeout", or the node "rejects the management
  secret".
\<close>

datatype client_error = Unreachable | AuthFailed

datatype attempt = Reached | TimedOut | Rejected

text \<open>
  Modelled from the spec: the attempts of \<open>addCredential\<close> (the Node Client is not among
  the sources). \<open>left\<close> attempts remain, \<open>channel i\<close> is what happens to attempt \<open>i\<close>.
  Every operation is retried on \<open>Unreachable\<close>, while \<open>AuthFailed\<close> "is not retried and
  is surfaced immediately"; an "already exists" answer is treated as success.
\<close>

fun addCredential_from ::
  "nat \<Rightarrow> nat \<Rightarrow> (nat \<Rightarrow> attempt) \<Rightarrow> node \<Rightarrow> uuid \<Rightarrow> int \<Rightarrow> string \<Rightarrow> (client_error + unit) \<times> node" where
  "addCredential_from 0 i channel n cid tier label = (Inl Unreachable, n)"
| "addCredential_from (Suc left) i channel n cid tier label =
     (case channel i of
        Reached \<Rightarrow>
          (case AddUser n cid tier label of
             (AddOk, n') \<Rightarrow> (Inr (), n')
           | (AlreadyExists, n') \<Rightarrow> (Inr (), n'))
      | Rejected \<Rightarrow> (Inl AuthFailed, n)
      | TimedOut \<Rightarrow> addCredential_from left (Suc i) channel n cid tier label)"

text \<open>
  Modelled from the spec: \<^verbatim>\<open>addCredential(id, tier, label)\<close> of the Node Client (not
  among the sources), with the bound on the attempts ("e.g., up to 3") as a parameter.
\<close>

definition addCredential ::
  "nat \<Rightarrow> (nat \<Rightarrow> attempt) \<Rightarrow> node \<Rightarrow> uuid \<Rightarrow> int \<Rightarrow> string \<Rightarrow> (client_error + unit) \<times> node" where
  "addCredential attempts channel n cid tier label =
     addCredential_from attempts 0 channel n cid tier label"

text \<open>
  Modelled from the spec: the attempts of \<open>removeCredential\<close> (the Node Client is not
  among the sources); a "not found" answer is treated as success.
\<close>

fun removeCredential_from ::
  "nat \<Rightarrow> nat \<Rightarrow> (nat \<Rightarrow> attempt) \<Rightarrow> node \<Rightarrow> uuid \<Rightarrow> (client_error + unit) \<times> node" where
  "removeCredential_from 0 i channel n cid = (Inl Unreachable, n)"
| "removeCredential_from (Suc left) i channel n cid =
     (case channel i of
        Reached \<Rightarrow>
          (case RemoveUser n cid of
             (RemoveOk, n') \<Rightarrow> (Inr (), n')
           | (NotFound, n') \<Rightarrow> (Inr (), n'))
      | Rejected \<Rightarrow> (Inl AuthFailed, n)
      | TimedOut \<Rightarrow> removeCredential_from left (Suc i) channel n cid)"

text \<open>
  Modelled from the spec: \<^verbatim>\<open>removeCredential(id)\<close> of the Node Client (not among the
  sources).
\<close>

definition removeCredential ::
  "nat \<Rightarrow> (nat \<Rightarrow> attempt) \<Rightarrow> node \<Rightarrow> uuid \<Rightarrow> (client_error + unit) \<times> node" where
  "removeCredential attempts channel n cid = removeCredential_from attempts 0 channel n cid"

section \<open>Example states\<close>

text \<open>The tariffs init.sql seeds.\<close>

definition seed_tariffs :: "tariff list" where
  "seed_tariffs =
     [\<lparr>t_id = 1, t_name = ''Basic'', t_price = 2900, t_speed_limit_mbps = 1, t_xray_level = 1\<rparr>,
      \<lparr>t_id = 2, t_name = ''Standard'', t_price = 7900, t_speed_limit_mbps = 7, t_xray_level = 2\<rparr>,
      \<lparr>t_id = 3, t_name = ''Pro'', t_price = 27900, t_speed_limit_mbps = 25, t_xray_level = 3\<rparr>,
      \<lparr>t_id = 4, t_name = ''Ultra'', t_price = 39900, t_speed_limit_mbps = 50, t_xray_level = 4\<rparr>]"

text \<open>A server with room for one user, and a disabled server with room for a hundred.\<close>

definition node_a :: server where
  "node_a =
     \<lparr> srv_id = ''0a0a0a0a-0000-4000-8000-00000000000a'',
       srv_slug = ''de-helsinki-1'',
       srv_ip_address = ''1.2.3.4'',
       srv_domain = ''vpn1.example.com'',
       srv_api_secret = ''secret'',
       srv_api_port = 8080,
       srv_grpc_port = None,
       srv_public_key = ''pk'',
       srv_short_ids = [],
       srv_max_users = 1,
       srv_is_enabled = True,
       srv_created_at = 0,
       srv_updated_at = 0 \<rparr>"

definition node_off :: server where
  "node_off =
     \<lparr> srv_id = ''0b0b0b0b-0000-4000-8000-00000000000b'',
       srv_slug = ''nl-ams-1'',
       srv_ip_address = ''5.6.7.8'',
       srv_domain = ''vpn2.example.com'',
       srv_api_secret = ''secret'',
       srv_api_port = 8080,
       srv_grpc_port = None,
       srv_public_key = ''pk'',
       srv_short_ids = [],
       srv_max_users = 100,
       srv_is_enabled = False,
       srv_created_at = 0,
       srv_updated_at = 0 \<rparr>"

definition alice :: user where
  "alice =
     \<lparr> u_id = ''a11ce000-0000-4000-8000-000000000001'',
       u_tg_id = 12345,
       u_username = Some ''alice'',
       u_full_name = None,
       u_language = Some ''en'',
       u_balance = Some 10000,
       u_created_at = 5,
       u_updated_at = 5 \<rparr>"

definition env1 :: env where
  "env1 = \<lparr> env_now = 1000,
            env_randomUUID = ''c0ffee00-0000-4000-8000-000000000001'',
            env_gen_random_uuid = ''5ab5c0de-0000-4000-8000-000000000001'' \<rparr>"

definition env2 :: env where
  "env2 = \<lparr> env_now = 2000,
            env_randomUUID = ''c0ffee00-0000-4000-8000-000000000002'',
            env_gen_random_uuid = ''5ab5c0de-0000-4000-8000-000000000002'' \<rparr>"

text \<open>
  \<open>shop\<close>: one server with a free slot, one user with 100.00. \<open>shop_full\<close>: the same
  after that user bought the Basic plan, which fills the server. \<open>shop_off\<close>: the only
  server is disabled.
\<close>

definition shop :: db where
  "shop = \<lparr> tariffs = seed_tariffs, servers = [node_a], users = [alice], subscriptions = [] \<rparr>"

definition shop_full :: db where
  "shop_full =
     shop\<lparr>users := [debit 2900 1000 alice],
          subscriptions := [new_subscription (u_id alice) 1 (srv_id node_a) 30 env1]\<rparr>"

definition shop_off :: db where
  "shop_off = \<lparr> tariffs = seed_tariffs, servers = [node_off], users = [alice], subscriptions = [] \<rparr>"

definition node_b :: server where
  "node_b =
     \<lparr> srv_id = ''0c0c0c0c-0000-4000-8000-00000000000c'',
       srv_slug = ''fi-hel-2'',
       srv_ip_address = ''9.9.9.9'',
       srv_domain = ''vpn3.example.com'',
       srv_api_secret = ''secret'',
       srv_api_port = 8080,
       srv_grpc_port = None,
       srv_public_key = ''pk'',
       srv_short_ids = [],
       srv_max_users = 3000,
       srv_is_enabled = True,
       srv_created_at = 0,
       srv_updated_at = 0 \<rparr>"

definition node_c :: server where
  "node_c =
     \<lparr> srv_id = ''0e0e0e0e-0000-4000-8000-00000000000e'',
       srv_slug = ''se-sto-1'',
       srv_ip_address = ''7.7.7.7'',
       srv_domain = ''vpn5.example.com'',
       srv_api_secret = ''secret'',
       srv_api_port = 8080,
       srv_grpc_port = None,
       srv_public_key = ''pk'',
       srv_short_ids = [],
       srv_max_users = 2,
       srv_is_enabled = True,
       srv_created_at = 0,
       srv_updated_at = 0 \<rparr>"

definition node_d :: server where
  "node_d =
     \<lparr> srv_id = ''0d0d0d0d-0000-4000-8000-00000000000d'',
       srv_slug = ''no-osl-1'',
       srv_ip_address = ''8.8.4.4'',
       srv_domain = ''vpn4.example.com'',
       srv_api_secret = ''secret'',
       srv_api_port = 8080,
       srv_grpc_port = None,
       srv_public_key = ''pk'',
       srv_short_ids = [],
       srv_max_users = 100,
       srv_is_enabled = True,
       srv_created_at = 0,
       srv_updated_at = 0 \<rparr>"

text \<open>
  \<open>fleet\<close>: three enabled servers, with 1 of 3000, 0 of 100 and 0 of 1 active
  subscriptions. \<open>ranked\<close>: two enabled servers, with 1 of 2 and 0 of 3000.
\<close>

definition fleet :: db where
  "fleet =
     \<lparr> tariffs = seed_tariffs,
       servers = [node_b, node_d, node_a],
       users = [alice],
       subscriptions = [new_subscription (u_id alice) 1 (srv_id node_b) 30 env1] \<rparr>"

definition ranked :: db where
  "ranked =
     \<lparr> tariffs = seed_tariffs,
       servers = [node_c, node_b],
       users = [alice],
       subscriptions = [new_subscription (u_id alice) 1 (srv_id node_c) 30 env1] \<rparr>"

text \<open>
  Every message is accepted and the executor returns the first of the least loaded
  rows; the same where the handler's first message is rejected.
\<close>

definition io_ok :: io where
  "io_ok = \<lparr> io_peer = 0, io_reply_resolves = (\<lambda>i. True) \<rparr>"

definition io_lost :: io where
  "io_lost = \<lparr> io_peer = 0, io_reply_resolves = (\<lambda>i. i \<noteq> 0) \<rparr>"

text \<open>
  An environment that draws the credential identifier of \<open>env1\<close> again; a channel whose
  first attempt times out; a credential as the node holds it.
\<close>

definition env_clash :: env where
  "env_clash = env2\<lparr>env_randomUUID := env_randomUUID env1\<rparr>"

definition flaky :: "nat \<Rightarrow> attempt" where
  "flaky i = (if i = 0 then TimedOut else Reached)"

definition cred1 :: credential where
  "cred1 = \<lparr> cred_id = ''c0ffee00-0000-4000-8000-000000000001'', cred_tier = 1,
             cred_label = ''user_1_c0ffee00'' \<rparr>"

section \<open>Auxiliary facts\<close>

lemma round_load:
  assumes "0 \<le> c" "0 < m"
  shows "ROUND1 (of_int c / of_int m * 100) = of_int ((2000 * c + m) div (2 * m)) / 10"
proof -
  have "\<bar>of_int c / of_int m * 100 :: rat\<bar> * 10 + 1 / 2 = of_int (2000 * c + m) / of_int (2 * m)"
    using assms by (simp add: field_simps abs_of_nonneg)
  then have fl: "\<lfloor>\<bar>of_int c / of_int m * 100 :: rat\<bar> * 10 + 1 / 2\<rfloor> = (2000 * c + m) div (2 * m)"
    by (simp only: floor_divide_of_int_eq)
  have "sgn (of_int c / of_int m * 100 :: rat) * of_int ((2000 * c + m) div (2 * m))
          = of_int ((2000 * c + m) div (2 * m))"
  proof (cases "c = 0")
    case True
    then show ?thesis using assms by simp
  next
    case False
    then have "(0::rat) < of_int c / of_int m * 100"
      using assms by simp
    then show ?thesis
      by (simp only: sgn_pos mult_1)
  qed
  with fl show ?thesis
    by (simp add: ROUND1_def)
qed

lemma find_unique_key:
  "distinct (map f xs) \<Longrightarrow> x \<in> set xs \<Longrightarrow> find (\<lambda>y. f y = f x) xs = Some x"
  by (induction xs) (auto simp: image_iff)

lemma find_Some_key:
  "find (\<lambda>y. f y = k) xs = Some x \<Longrightarrow> x \<in> set xs \<and> f x = k"
  by (induction xs) (auto split: if_splits)

section \<open>Server selection\<close>

lemma least_loaded_subset: "set (least_loaded rows) \<subseteq> set rows"
  by (auto simp: least_loaded_def)

lemma least_loaded_least:
  "r \<in> set (least_loaded rows) \<Longrightarrow> r' \<in> set rows \<Longrightarrow>
     v_load_percentage r \<le> v_load_percentage r'"
  by (auto simp: least_loaded_def)

lemma least_loaded_Nil_iff: "least_loaded rows = [] \<longleftrightarrow> rows = []"
proof
  assume empty: "least_loaded rows = []"
  show "rows = []"
  proof (rule ccontr)
    assume ne: "rows \<noteq> []"
    let ?m = "arg_min_list v_load_percentage rows"
    have "?m \<in> set rows"
      using ne by (rule arg_min_list_in)
    moreover have "\<forall>r' \<in> set rows. v_load_percentage ?m \<le> v_load_percentage r'"
      using f_arg_min_list_f [of rows v_load_percentage] ne by auto
    ultimately have "?m \<in> set (least_loaded rows)"
      by (simp add: least_loaded_def)
    with empty show False by simp
  qed
next
  assume "rows = []"
  then show "least_loaded rows = []"
    by (simp add: least_loaded_def)
qed

lemma findBestServer_row:
  assumes "findBestServer d peer = Some sid"
  shows "\<exists>r \<in> set (view_server_load d).
           v_id r = sid \<and> v_slots_available r > 0 \<and>
           (\<forall>r' \<in> set (view_server_load d).
              v_slots_available r' > 0 \<longrightarrow> v_load_percentage r \<le> v_load_percentage r')"
proof -
  let ?free = "filter (\<lambda>r. v_slots_available r > 0) (view_server_load d)"
  let ?best = "least_loaded ?free"
  from assms have ne: "?best \<noteq> []" and sid: "v_id (?best ! (peer mod length ?best)) = sid"
    by (auto simp: findBestServer_def split: list.splits)
  let ?r = "?best ! (peer mod length ?best)"
  from ne have "?r \<in> set ?best"
    by simp
  then have mem: "?r \<in> set ?free"
    and least: "\<forall>r' \<in> set ?free. v_load_percentage ?r \<le> v_load_percentage r'"
    using least_loaded_subset [of ?free] least_loaded_least [of ?r ?free] by auto
  from mem least sid show ?thesis
    by (intro bexI [of _ ?r]) auto
qed

lemma findBestServer_free_slot:
  assumes "findBestServer d peer = Some sid"
  shows "\<exists>s \<in> set (servers d). srv_id s = sid \<and> current_users d sid < srv_max_users s"
proof -
  from findBestServer_row [OF assms] obtain r where
    "r \<in> set (view_server_load d)" "v_id r = sid" "v_slots_available r > 0"
    by blast
  then show ?thesis
    by (auto simp: view_server_load_def view_row_def)
qed

lemma findBestServer_None_iff:
  "findBestServer d peer = None \<longleftrightarrow>
     (\<forall>s \<in> set (servers d). srv_max_users s \<le> current_users d (srv_id s))"
proof -
  let ?free = "filter (\<lambda>r. v_slots_available r > 0) (view_server_load d)"
  have "findBestServer d peer = None \<longleftrightarrow> least_loaded ?free = []"
    by (cases "least_loaded ?free") (simp_all add: findBestServer_def)
  also have "\<dots> \<longleftrightarrow> ?free = []"
    by (rule least_loaded_Nil_iff)
  also have "\<dots> \<longleftrightarrow> (\<forall>s \<in> set (servers d). srv_max_users s \<le> current_users d (srv_id s))"
    by (auto simp: filter_empty_conv view_server_load_def view_row_def)
  finally show ?thesis .
qed

lemma findBestServer_single:
  assumes "servers d = [s]" and "current_users d (srv_id s) < srv_max_users s"
  shows "findBestServer d peer = Some (srv_id s)"
  using assms
  by (simp add: findBestServer_def view_server_load_def least_loaded_def)
     (simp add: view_row_def)

lemma node_facts:
  "srv_max_users node_a = 1" "srv_max_users node_b = 3000" "srv_max_users node_c = 2"
  "srv_max_users node_d = 100" "srv_max_users node_off = 100"
  "srv_id node_a \<noteq> srv_id node_b" "srv_id node_b \<noteq> srv_id node_a"
  "srv_id node_a \<noteq> srv_id node_d" "srv_id node_d \<noteq> srv_id node_a"
  "srv_id node_b \<noteq> srv_id node_d" "srv_id node_d \<noteq> srv_id node_b"
  "srv_id node_b \<noteq> srv_id node_c" "srv_id node_c \<noteq> srv_id node_b"
  "srv_is_enabled node_a" "srv_is_enabled node_b" "srv_is_enabled node_c"
  "srv_is_enabled node_d" "\<not> srv_is_enabled node_off"
  by (simp_all add: node_a_def node_b_def node_c_def node_d_def node_off_def)

lemma shop_users: "current_users shop (srv_id node_a) = 0"
  by (simp add: current_users_def shop_def)

lemma shop_best: "findBestServer shop peer = Some (srv_id node_a)"
proof (rule findBestServer_single)
  show "servers shop = [node_a]"
    by (simp add: shop_def)
  show "current_users shop (srv_id node_a) < srv_max_users node_a"
    by (simp add: shop_users node_facts)
qed

lemma shop_off_best: "findBestServer shop_off peer = Some (srv_id node_off)"
proof (rule findBestServer_single)
  show "servers shop_off = [node_off]"
    by (simp add: shop_off_def)
  have "current_users shop_off (srv_id node_off) = 0"
    by (simp add: current_users_def shop_off_def)
  then show "current_users shop_off (srv_id node_off) < srv_max_users node_off"
    by (simp add: node_facts)
qed

text \<open>
  C1. Whatever the database state and whichever row the executor puts first, a server
  returned by \<open>findBestServer\<close> is a row of \<^verbatim>\<open>servers\<close> whose number of active
  subscriptions is strictly below its \<^verbatim>\<open>max_users\<close>: selection never returns a server
  at or above its limit.
\<close>

theorem findBestServer_below_capacity:
  "findBestServer d peer = Some sid \<Longrightarrow>
     \<exists>s \<in> set (servers d). srv_id s = sid \<and> current_users d sid < srv_max_users s"
  by (rule findBestServer_free_slot)

theorem findBestServer_below_capacity_witness:
  "findBestServer shop 0 = Some (srv_id node_a) \<and>
   current_users shop (srv_id node_a) < srv_max_users node_a"
  using findBestServer_below_capacity [OF shop_best [of 0]] shop_best [of 0]
  by (simp add: shop_def)

lemma fleet_users:
  "current_users fleet (srv_id node_b) = 1"
  "current_users fleet (srv_id node_d) = 0"
  "current_users fleet (srv_id node_a) = 0"
  by (simp_all add: current_users_def fleet_def new_subscription_def node_facts)

lemma fleet_loads:
  "v_load_percentage (view_row fleet node_b) = 0"
  "v_load_percentage (view_row fleet node_d) = 0"
  "v_load_percentage (view_row fleet node_a) = 0"
  "v_slots_available (view_row fleet node_b) = 2999"
  "v_slots_available (view_row fleet node_d) = 100"
  "v_slots_available (view_row fleet node_a) = 1"
  by (simp_all add: view_row_def fleet_users node_facts ROUND1_def floor_eq_iff)

lemma fleet_view:
  "view_server_load fleet =
     [view_row fleet node_b, view_row fleet node_d, view_row fleet node_a]"
  by (simp add: view_server_load_def fleet_def)

lemma fleet_best:
  "findBestServer fleet 0 = Some (srv_id node_b)"
  "findBestServer fleet 1 = Some (srv_id node_d)"
  "findBestServer fleet 2 = Some (srv_id node_a)"
  by (simp_all add: findBestServer_def least_loaded_def fleet_view fleet_loads)
     (simp_all add: view_row_def)

lemma ranked_users:
  "current_users ranked (srv_id node_c) = 1"
  "current_users ranked (srv_id node_b) = 0"
  by (simp_all add: current_users_def ranked_def new_subscription_def node_facts)

lemma ranked_loads:
  "v_load_percentage (view_row ranked node_c) = 50"
  "v_load_percentage (view_row ranked node_b) = 0"
  "v_slots_available (view_row ranked node_c) = 1"
  "v_slots_available (view_row ranked node_b) = 3000"
  by (simp_all add: view_row_def ranked_users node_facts ROUND1_def floor_eq_iff)

lemma ranked_best: "findBestServer ranked peer = Some (srv_id node_b)"
proof -
  have "view_server_load ranked = [view_row ranked node_c, view_row ranked node_b]"
    by (simp add: view_server_load_def ranked_def)
  then show ?thesis
    by (simp add: findBestServer_def least_loaded_def ranked_loads) (simp add: view_row_def)
qed

text \<open>
  C2, as stated, fails, on two counts. The view has a row for every server and
  \<open>findBestServer\<close> never reads \<^verbatim>\<open>is_enabled\<close>: in \<open>shop_off\<close> the only server is
  disabled and has free slots, and it is the server returned. And the query orders by
  the rounded \<^verbatim>\<open>load_percentage\<close> alone: in \<open>fleet\<close> all three servers are enabled, with
  1 of 3000, 0 of 100 and 0 of 1 active subscriptions, so the last two share the lowest
  ratio and the lowest count and the rule of C2 selects the one of them with the lower
  id and no other; yet all three rows show a \<^verbatim>\<open>load_percentage\<close> of 0.0, the
  \<^verbatim>\<open>ORDER BY\<close> does not tell them apart, and each of the three is returned for one of
  the orders the executor may produce, among them the server whose ratio and count are
  not the lowest.
\<close>

theorem findBestServer_rule_counterexample:
  "servers shop_off = [node_off] \<and> \<not> srv_is_enabled node_off \<and>
   findBestServer shop_off 0 = Some (srv_id node_off) \<and>
   servers fleet = [node_b, node_d, node_a] \<and>
   srv_is_enabled node_b \<and> srv_is_enabled node_d \<and> srv_is_enabled node_a \<and>
   (of_int (current_users fleet (srv_id node_a)) / of_int (srv_max_users node_a) :: rat)
     < of_int (current_users fleet (srv_id node_b)) / of_int (srv_max_users node_b) \<and>
   (of_int (current_users fleet (srv_id node_a)) / of_int (srv_max_users node_a) :: rat)
     = of_int (current_users fleet (srv_id node_d)) / of_int (srv_max_users node_d) \<and>
   current_users fleet (srv_id node_a) < current_users fleet (srv_id node_b) \<and>
   current_users fleet (srv_id node_a) = current_users fleet (srv_id node_d) \<and>
   v_load_percentage (view_row fleet node_b) = v_load_percentage (view_row fleet node_a) \<and>
   v_load_percentage (view_row fleet node_d) = v_load_percentage (view_row fleet node_a) \<and>
   findBestServer fleet 0 = Some (srv_id node_b) \<and>
   findBestServer fleet 1 = Some (srv_id node_d) \<and>
   findBestServer fleet 2 = Some (srv_id node_a) \<and>
   srv_id node_b \<noteq> srv_id node_a \<and> srv_id node_d \<noteq> srv_id node_a"
proof -
  have "servers shop_off = [node_off]"
    by (simp add: shop_off_def)
  moreover have "servers fleet = [node_b, node_d, node_a]"
    by (simp add: fleet_def)
  ultimately show ?thesis
    using fleet_best shop_off_best [of 0]
    by (simp add: fleet_loads fleet_users node_facts)
qed

text \<open>
  C2, amended. \<open>findBestServer\<close> looks at every row of \<^verbatim>\<open>servers\<close>, enabled or not. It
  returns nothing exactly when every server has at least \<^verbatim>\<open>max_users\<close> active
  subscriptions. Otherwise it returns a server below its limit whose
  \<^verbatim>\<open>load_percentage\<close> (the load in percent, rounded to one decimal place) is the least
  among the servers below their limit. This holds for every order the executor may
  produce; which of several servers with that least \<^verbatim>\<open>load_percentage\<close> is returned is
  not fixed.
\<close>

theorem findBestServer_least_load_percentage:
  "(findBestServer d peer = None \<longleftrightarrow>
      (\<forall>s \<in> set (servers d). srv_max_users s \<le> current_users d (srv_id s))) \<and>
   (\<forall>sid. findBestServer d peer = Some sid \<longrightarrow>
      (\<exists>s \<in> set (servers d).
         srv_id s = sid \<and> current_users d (srv_id s) < srv_max_users s \<and>
         (\<forall>s' \<in> set (servers d).
            current_users d (srv_id s') < srv_max_users s' \<longrightarrow>
            v_load_percentage (view_row d s) \<le> v_load_percentage (view_row d s'))))"
proof (intro conjI allI impI)
  show "findBestServer d peer = None \<longleftrightarrow>
      (\<forall>s \<in> set (servers d). srv_max_users s \<le> current_users d (srv_id s))"
    by (rule findBestServer_None_iff)
next
  fix sid
  assume "findBestServer d peer = Some sid"
  from findBestServer_row [OF this] obtain r where
    r: "r \<in> set (view_server_load d)" "v_id r = sid" "v_slots_available r > 0"
    and least: "\<forall>r' \<in> set (view_server_load d).
                  v_slots_available r' > 0 \<longrightarrow> v_load_percentage r \<le> v_load_percentage r'"
    by blast
  from r(1) obtain s where s: "s \<in> set (servers d)" "r = view_row d s"
    by (auto simp: view_server_load_def)
  have "srv_id s = sid" "current_users d (srv_id s) < srv_max_users s"
    using r s by (simp_all add: view_row_def)
  moreover have "v_load_percentage (view_row d s) \<le> v_load_percentage (view_row d s')"
    if "s' \<in> set (servers d)" "current_users d (srv_id s') < srv_max_users s'" for s'
  proof -
    have "view_row d s' \<in> set (view_server_load d)"
      using that(1) by (simp add: view_server_load_def)
    moreover have "v_slots_available (view_row d s') > 0"
      using that(2) by (simp add: view_row_def)
    ultimately show ?thesis
      using least s(2) by blast
  qed
  ultimately show "\<exists>s \<in> set (servers d).
         srv_id s = sid \<and> current_users d (srv_id s) < srv_max_users s \<and>
         (\<forall>s' \<in> set (servers d).
            current_users d (srv_id s') < srv_max_users s' \<longrightarrow>
            v_load_percentage (view_row d s) \<le> v_load_percentage (view_row d s'))"
    using s(1) by blast
qed

theorem findBestServer_least_load_percentage_witness:
  "(\<forall>peer. findBestServer ranked peer = Some (srv_id node_b)) \<and>
   current_users ranked (srv_id node_b) < srv_max_users node_b \<and>
   current_users ranked (srv_id node_c) < srv_max_users node_c \<and>
   v_load_percentage (view_row ranked node_b) = 0 \<and>
   v_load_percentage (view_row ranked node_c) = 50 \<and>
   v_load_percentage (view_row ranked node_b) \<le> v_load_percentage (view_row ranked node_c)"
proof -
  from findBestServer_least_load_percentage [of ranked 0] ranked_best [of 0]
  obtain s where s: "s \<in> set (servers ranked)" "srv_id s = srv_id node_b"
    "current_users ranked (srv_id s) < srv_max_users s"
    "\<forall>s' \<in> set (servers ranked).
        current_users ranked (srv_id s') < srv_max_users s' \<longrightarrow>
        v_load_percentage (view_row ranked s) \<le> v_load_percentage (view_row ranked s')"
    by blast
  from s(1,2) have "s = node_b"
    by (auto simp: ranked_def node_facts)
  moreover have "node_c \<in> set (servers ranked)"
    by (simp add: ranked_def)
  moreover have free: "current_users ranked (srv_id node_c) < srv_max_users node_c"
    by (simp add: ranked_users node_facts)
  ultimately have "current_users ranked (srv_id node_b) < srv_max_users node_b"
    and "v_load_percentage (view_row ranked node_b) \<le> v_load_percentage (view_row ranked node_c)"
    using s by blast+
  with free ranked_best show ?thesis
    by (simp add: ranked_loads)
qed

section \<open>Purchases\<close>

lemma createSubscription_rollback:
  "createSubscription d userId tariffId serverId days e = (Inl err, d') \<Longrightarrow> d' = d"
  by (auto simp: createSubscription_def Let_def split: sum.splits)

lemma createSubscription_commit:
  assumes "createSubscription d userId tariffId serverId days e = (Inr ok, d')"
  shows "\<exists>t. find (\<lambda>t. t_id t = tariffId) (tariffs d) = Some t \<and>
             (\<exists>u \<in> set (users d). can_debit (t_price t) userId u) \<and>
             ok \<and>
             d' = d\<lparr>users := map (\<lambda>u. if can_debit (t_price t) userId u
                                       then debit (t_price t) (env_now e) u else u) (users d),
                    subscriptions := subscriptions d
                       @ [new_subscription userId tariffId serverId days e]\<rparr>"
proof -
  from assms obtain t where
    t: "find (\<lambda>t. t_id t = tariffId) (tariffs d) = Some t"
    by (auto simp: createSubscription_def createSubscription_body_def Let_def
        split: sum.splits option.splits)
  let ?m = "filter (can_debit (t_price t) userId) (users d)"
  let ?d1 = "d\<lparr>users := map (\<lambda>u. if can_debit (t_price t) userId u
                                  then debit (t_price t) (env_now e) u else u) (users d)\<rparr>"
  from assms t have ne: "?m \<noteq> []" and ok: ok
    and ins: "insert_subscription ?d1 (new_subscription userId tariffId serverId days e) = Inr d'"
    by (auto simp: createSubscription_def createSubscription_body_def Let_def
        split: sum.splits if_splits)
  from ne obtain u where "u \<in> set (users d)" "can_debit (t_price t) userId u"
    by (auto simp: filter_empty_conv)
  moreover from ins have
    "d' = ?d1\<lparr>subscriptions := subscriptions ?d1 @ [new_subscription userId tariffId serverId days e]\<rparr>"
    by (auto simp: insert_subscription_def split: if_splits)
  ultimately show ?thesis
    using t ok by auto
qed

lemma buy_action_cases:
  assumes "buy_action d cu tid e w = (r, d')"
  shows "d' = d \<or>
     (\<exists>plan sid. find (\<lambda>t. t_id t = int tid) (getTariffs d) = Some plan \<and>
        findBestServer d (io_peer w) = Some sid \<and>
        createSubscription d (u_id cu) (t_id plan) sid 30 e = (Inr True, d') \<and>
        (r = Inr (ReplySuccess (t_name plan)) \<or>
         \<not> io_reply_resolves w 0 \<and> r = ctx_reply w 1 ReplyErrorProcessing))"
proof (cases "find (\<lambda>t. t_id t = int tid) (getTariffs d)")
  case None
  with assms show ?thesis
    by (simp add: buy_action_def)
next
  case (Some plan)
  show ?thesis
  proof (cases "balance_below (u_balance cu) (t_price plan)")
    case True
    with Some assms show ?thesis
      by (simp add: buy_action_def)
  next
    case False
    show ?thesis
    proof (cases "findBestServer d (io_peer w)")
      case None
      with Some False assms show ?thesis
        by (simp add: buy_action_def)
    next
      case best: (Some sid)
      obtain res d1 where cs: "createSubscription d (u_id cu) (t_id plan) sid 30 e = (res, d1)"
        by (cases "createSubscription d (u_id cu) (t_id plan) sid 30 e")
      show ?thesis
      proof (cases res)
        case (Inl err)
        with cs have "d1 = d"
          using createSubscription_rollback by blast
        with Some False best cs Inl assms show ?thesis
          by (simp add: buy_action_def)
      next
        case (Inr ok)
        with cs createSubscription_commit [of d "u_id cu" "t_id plan" sid 30 e ok d1]
        have ok: "createSubscription d (u_id cu) (t_id plan) sid 30 e = (Inr True, d1)"
          by auto
        with Some False best assms have "d' = d1"
          and "r = Inr (ReplySuccess (t_name plan)) \<or>
               \<not> io_reply_resolves w 0 \<and> r = ctx_reply w 1 ReplyErrorProcessing"
          by (auto simp: buy_action_def ctx_reply_def split: if_splits)
        with Some best ok show ?thesis
          by auto
      qed
    qed
  qed
qed

lemma shop_plans:
  "find (\<lambda>t. t_id t = int 1) (getTariffs shop) =
     Some \<lparr>t_id = 1, t_name = ''Basic'', t_price = 2900, t_speed_limit_mbps = 1, t_xray_level = 1\<rparr>"
  "find (\<lambda>t. t_id t = int 4) (getTariffs shop) =
     Some \<lparr>t_id = 4, t_name = ''Ultra'', t_price = 39900, t_speed_limit_mbps = 50, t_xray_level = 4\<rparr>"
  "getTariffs shop_full = getTariffs shop"
  "getTariffs ranked = getTariffs shop"
  by (simp_all add: getTariffs_def shop_def shop_full_def ranked_def seed_tariffs_def)

lemma alice_facts:
  "u_balance alice = Some 10000"
  "u_balance (debit 2900 1000 alice) = Some 7100"
  "u_id (debit 2900 1000 alice) = u_id alice"
  by (simp_all add: alice_def debit_def)

lemma io_facts:
  "io_peer io_ok = 0" "io_reply_resolves io_ok i" "ctx_reply io_ok i message = Inr message"
  "io_peer io_lost = 0" "\<not> io_reply_resolves io_lost 0" "io_reply_resolves io_lost 1"
  "ctx_reply io_lost 0 message = Inl SendFailed" "ctx_reply io_lost 1 message = Inr message"
  "ctx_reply io_lost (Suc 0) message = Inr message"
  by (simp_all add: io_ok_def io_lost_def ctx_reply_def)

lemma shop_full_users: "current_users shop_full (srv_id node_a) = 1"
  by (simp add: current_users_def shop_full_def new_subscription_def)


lemma shop_create:
  "createSubscription shop (u_id alice) 1 (srv_id node_a) 30 env1 = (Inr True, shop_full)"
  by (simp add: createSubscription_def createSubscription_body_def insert_subscription_def
      shop_def shop_full_def seed_tariffs_def can_debit_def alice_def fits_numeric_10_2_def
      node_a_def new_subscription_def env1_def debit_def)

lemma shop_buy: "buy_action shop alice 1 env1 io_ok = (Inr (ReplySuccess ''Basic''), shop_full)"
  using shop_plans(1)
  by (simp add: buy_action_def shop_best shop_create balance_below_def alice_facts io_facts)


lemma shop_full_clash:
  "createSubscription shop_full (u_id alice) 1 (srv_id node_a) 30 env_clash =
     (Inl UniqueViolation, shop_full)"
  by (simp add: createSubscription_def createSubscription_body_def insert_subscription_def
      shop_def shop_full_def seed_tariffs_def can_debit_def alice_def fits_numeric_10_2_def
      node_a_def new_subscription_def env1_def env2_def env_clash_def debit_def)




text \<open>
  C4. With the primary key of \<^verbatim>\<open>users\<close> in force: when \<open>createSubscription\<close>
  succeeds, the plan exists, the buyer's balance was at least its price, the buyer's row
  has its balance lowered by exactly the price (and its \<^verbatim>\<open>updated_at\<close> set) while every
  other user row is as before, and exactly one row has been added to
  \<^verbatim>\<open>subscriptions\<close>, with status \<^verbatim>\<open>active\<close> and bound to that user, plan and server;
  tariffs and servers are untouched. When the buyer's balance is below the price it
  throws the insufficient-balance error and changes nothing. A successful purchase
  through the buy handler is such a call for the server \<open>findBestServer\<close> selected.
\<close>

theorem createSubscription_debits_and_inserts:
  assumes keys: "distinct (map u_id (users d))"
  shows
   "(createSubscription d userId tariffId serverId days e = (Inr True, d') \<longrightarrow>
      (\<exists>t u b. find (\<lambda>t. t_id t = tariffId) (tariffs d) = Some t \<and>
         find (\<lambda>u. u_id u = userId) (users d) = Some u \<and>
         u_balance u = Some b \<and> t_price t \<le> b \<and>
         users d' = map (\<lambda>x. if u_id x = userId
                              then x\<lparr>u_balance := Some (b - t_price t), u_updated_at := env_now e\<rparr>
                              else x) (users d) \<and>
         (\<exists>row. subscriptions d' = subscriptions d @ [row] \<and> sub_status row = active \<and>
            sub_user_id row = userId \<and> sub_tariff_id row = tariffId \<and>
            sub_server_id row = serverId) \<and>
         tariffs d' = tariffs d \<and> servers d' = servers d)) \<and>
    (\<forall>t u b. find (\<lambda>t. t_id t = tariffId) (tariffs d) = Some t \<and>
        find (\<lambda>u. u_id u = userId) (users d) = Some u \<and>
        u_balance u = Some b \<and> b < t_price t \<longrightarrow>
        createSubscription d userId tariffId serverId days e = (Inl InsufficientBalance, d)) \<and>
    (\<forall>cu tid name w. buy_action d cu tid e w = (Inr (ReplySuccess name), d') \<longrightarrow>
       (\<exists>plan sid. find (\<lambda>t. t_id t = int tid) (getTariffs d) = Some plan \<and>
          findBestServer d (io_peer w) = Some sid \<and>
          createSubscription d (u_id cu) (t_id plan) sid 30 e = (Inr True, d')))"
proof (intro conjI impI allI)
  assume ok: "createSubscription d userId tariffId serverId days e = (Inr True, d')"
  from createSubscription_commit [OF ok] obtain t u where
    t: "find (\<lambda>t. t_id t = tariffId) (tariffs d) = Some t"
    and u: "u \<in> set (users d)" "can_debit (t_price t) userId u"
    and d': "d' = d\<lparr>users := map (\<lambda>u. if can_debit (t_price t) userId u
                                       then debit (t_price t) (env_now e) u else u) (users d),
                    subscriptions := subscriptions d
                       @ [new_subscription userId tariffId serverId days e]\<rparr>"
    by blast
  from u(2) obtain b where b: "u_id u = userId" "u_balance u = Some b" "t_price t \<le> b"
    by (auto simp: can_debit_def split: option.splits)
  have found: "find (\<lambda>u. u_id u = userId) (users d) = Some u"
    using find_unique_key [OF keys u(1)] b(1) by simp
  have "(if can_debit (t_price t) userId x then debit (t_price t) (env_now e) x else x)
          = (if u_id x = userId
             then x\<lparr>u_balance := Some (b - t_price t), u_updated_at := env_now e\<rparr> else x)"
    if "x \<in> set (users d)" for x
  proof (cases "u_id x = userId")
    case True
    with keys u(1) b(1) that have "x = u"
      by (metis distinct_map inj_onD)
    with u(2) b True show ?thesis
      by (simp add: debit_def)
  next
    case False
    then show ?thesis by (simp add: can_debit_def)
  qed
  then have users: "users d' = map (\<lambda>x. if u_id x = userId
                              then x\<lparr>u_balance := Some (b - t_price t), u_updated_at := env_now e\<rparr>
                              else x) (users d)"
    by (simp add: d')
  have row: "\<exists>row. subscriptions d' = subscriptions d @ [row] \<and> sub_status row = active \<and>
            sub_user_id row = userId \<and> sub_tariff_id row = tariffId \<and>
            sub_server_id row = serverId"
    by (simp add: d' new_subscription_def)
  have "tariffs d' = tariffs d \<and> servers d' = servers d"
    by (simp add: d')
  with t found b users row
  show "\<exists>t u b. find (\<lambda>t. t_id t = tariffId) (tariffs d) = Some t \<and>
         find (\<lambda>u. u_id u = userId) (users d) = Some u \<and>
         u_balance u = Some b \<and> t_price t \<le> b \<and>
         users d' = map (\<lambda>x. if u_id x = userId
                              then x\<lparr>u_balance := Some (b - t_price t), u_updated_at := env_now e\<rparr>
                              else x) (users d) \<and>
         (\<exists>row. subscriptions d' = subscriptions d @ [row] \<and> sub_status row = active \<and>
            sub_user_id row = userId \<and> sub_tariff_id row = tariffId \<and>
            sub_server_id row = serverId) \<and>
         tariffs d' = tariffs d \<and> servers d' = servers d"
    by blast
next
  fix t u b
  assume h: "find (\<lambda>t. t_id t = tariffId) (tariffs d) = Some t \<and>
        find (\<lambda>u. u_id u = userId) (users d) = Some u \<and>
        u_balance u = Some b \<and> b < t_price t"
  then have u: "u \<in> set (users d)" "u_id u = userId"
    using find_Some_key [of u_id userId "users d" u] by simp_all
  have none: "\<not> can_debit (t_price t) userId x" if "x \<in> set (users d)" for x
  proof
    assume c: "can_debit (t_price t) userId x"
    then have "u_id x = u_id u" using u(2) by (simp add: can_debit_def)
    with keys u(1) that have "x = u"
      by (metis distinct_map inj_onD)
    with c h show False by (simp add: can_debit_def)
  qed
  then have "filter (can_debit (t_price t) userId) (users d) = []"
    by (simp add: filter_empty_conv)
  with h none
  show "createSubscription d userId tariffId serverId days e = (Inl InsufficientBalance, d)"
    by (auto simp: createSubscription_def createSubscription_body_def Let_def)
next
  fix cu tid name w
  assume "buy_action d cu tid e w = (Inr (ReplySuccess name), d')"
  then show "\<exists>plan sid. find (\<lambda>t. t_id t = int tid) (getTariffs d) = Some plan \<and>
          findBestServer d (io_peer w) = Some sid \<and>
          createSubscription d (u_id cu) (t_id plan) sid 30 e = (Inr True, d')"
    by (auto simp: buy_action_def ctx_reply_def dest: createSubscription_commit
        split: option.splits if_splits sum.splits prod.splits)
qed

theorem createSubscription_debits_and_inserts_witness:
  "buy_action shop alice 1 env1 io_ok = (Inr (ReplySuccess ''Basic''), shop_full) \<and>
   findBestServer shop (io_peer io_ok) = Some (srv_id node_a) \<and>
   createSubscription shop (u_id alice) 1 (srv_id node_a) 30 env1 = (Inr True, shop_full) \<and>
   users shop_full = [alice\<lparr>u_balance := Some 7100, u_updated_at := 1000\<rparr>] \<and>
   createSubscription shop (u_id alice) 4 (srv_id node_a) 30 env1 = (Inl InsufficientBalance, shop) \<and>
   (\<exists>plan sid. find (\<lambda>t. t_id t = 1) (getTariffs shop) = Some plan \<and>
      findBestServer shop (io_peer io_ok) = Some sid \<and>
      createSubscription shop (u_id alice) (t_id plan) sid 30 env1 = (Inr True, shop_full))"
proof -
  let ?ultra = "\<lparr>t_id = 4, t_name = ''Ultra'', t_price = 39900,
                  t_speed_limit_mbps = 50, t_xray_level = 4\<rparr>"
  have keys: "distinct (map u_id (users shop))"
    by (simp add: shop_def)
  note inst = createSubscription_debits_and_inserts [OF keys,
      of "u_id alice" _ "srv_id node_a" 30 env1 shop_full]
  have "find (\<lambda>t. t_id t = 4) (tariffs shop) = Some ?ultra"
    by (simp add: shop_def seed_tariffs_def)
  moreover have "find (\<lambda>u. u_id u = u_id alice) (users shop) = Some alice"
    by (simp add: shop_def)
  moreover have "u_balance alice = Some 10000" "(10000::int) < t_price ?ultra"
    by (simp_all add: alice_facts)
  ultimately have
    "createSubscription shop (u_id alice) 4 (srv_id node_a) 30 env1 = (Inl InsufficientBalance, shop)"
    using inst [of 4] by blast
  moreover have "users shop_full = [alice\<lparr>u_balance := Some 7100, u_updated_at := 1000\<rparr>]"
  proof -
    from inst [of 1] shop_create obtain t u b where
      "find (\<lambda>t. t_id t = 1) (tariffs shop) = Some t"
      "find (\<lambda>u. u_id u = u_id alice) (users shop) = Some u"
      "u_balance u = Some b"
      "users shop_full =
         map (\<lambda>x. if u_id x = u_id alice
                  then x\<lparr>u_balance := Some (b - t_price t), u_updated_at := env_now env1\<rparr>
                  else x) (users shop)"
      by blast
    then show ?thesis
      by (auto simp: shop_def seed_tariffs_def alice_facts env1_def)
  qed
  moreover have "\<exists>plan sid. find (\<lambda>t. t_id t = 1) (getTariffs shop) = Some plan \<and>
      findBestServer shop (io_peer io_ok) = Some sid \<and>
      createSubscription shop (u_id alice) (t_id plan) sid 30 env1 = (Inr True, shop_full)"
  proof -
    from inst [of 1] shop_buy
    have "\<exists>plan sid. find (\<lambda>t. t_id t = int 1) (getTariffs shop) = Some plan \<and>
      findBestServer shop (io_peer io_ok) = Some sid \<and>
      createSubscription shop (u_id alice) (t_id plan) sid 30 env1 = (Inr True, shop_full)"
      by blast
    then show ?thesis by simp
  qed
  ultimately show ?thesis
    using shop_buy shop_best [of "io_peer io_ok"] shop_create by simp
qed

lemma shop_full_create:
  "createSubscription shop_full (u_id alice) 1 (srv_id node_a) 30 env2 =
     (Inr True,
      shop_full\<lparr>users := [debit 2900 2000 (debit 2900 1000 alice)],
                subscriptions := [new_subscription (u_id alice) 1 (srv_id node_a) 30 env1,
                                  new_subscription (u_id alice) 1 (srv_id node_a) 30 env2]\<rparr>)"
  by (simp add: createSubscription_def createSubscription_body_def insert_subscription_def
      shop_def shop_full_def seed_tariffs_def can_debit_def alice_def fits_numeric_10_2_def
      node_a_def new_subscription_def env1_def env2_def debit_def)

text \<open>
  C5 asks that \<open>createSubscription\<close> fail for a server that has \<^verbatim>\<open>max_users\<close> active
  subscriptions already, and insert nothing there. The code does otherwise. In
  \<open>shop_full\<close> the server has one active subscription and a \<^verbatim>\<open>max_users\<close> of one; the
  call commits and leaves two, above what init.sql calls the "Hard limit for this
  server" and what \<open>findBestServer\<close> keeps to.
\<close>

theorem createSubscription_exceeds_max_users:
  "srv_max_users node_a \<le> current_users shop_full (srv_id node_a) \<and>
   fst (createSubscription shop_full (u_id alice) 1 (srv_id node_a) 30 env2) = Inr True \<and>
   current_users (snd (createSubscription shop_full (u_id alice) 1 (srv_id node_a) 30 env2))
     (srv_id node_a) = 2"
  by (simp add: shop_full_create shop_full_users node_facts)
     (simp add: current_users_def new_subscription_def)

text \<open>
  The capacity check of the code is the one of \<open>findBestServer\<close>, which the buy handler
  runs before it calls \<open>createSubscription\<close>: the handler either leaves
  \<^verbatim>\<open>subscriptions\<close> as it was or adds one row, on a server that had fewer active
  subscriptions than its \<^verbatim>\<open>max_users\<close> in the state \<open>findBestServer\<close> read.
\<close>

lemma buy_action_inserts_below_capacity:
  assumes "buy_action d cu tid e w = (r, d')"
  shows "subscriptions d' = subscriptions d \<or>
      (\<exists>row s. subscriptions d' = subscriptions d @ [row] \<and> s \<in> set (servers d) \<and>
         srv_id s = sub_server_id row \<and> current_users d (srv_id s) < srv_max_users s)"
  using buy_action_cases [OF assms]
proof
  assume "d' = d"
  then show ?thesis by simp
next
  assume "\<exists>plan sid. find (\<lambda>t. t_id t = int tid) (getTariffs d) = Some plan \<and>
        findBestServer d (io_peer w) = Some sid \<and>
        createSubscription d (u_id cu) (t_id plan) sid 30 e = (Inr True, d') \<and>
        (r = Inr (ReplySuccess (t_name plan)) \<or>
         \<not> io_reply_resolves w 0 \<and> r = ctx_reply w 1 ReplyErrorProcessing)"
  then obtain plan :: tariff and sid where best: "findBestServer d (io_peer w) = Some sid"
    and ok: "createSubscription d (u_id cu) (t_id plan) sid 30 e = (Inr True, d')"
    by auto
  from findBestServer_free_slot [OF best] obtain s where
    s: "s \<in> set (servers d)" "srv_id s = sid" "current_users d sid < srv_max_users s"
    by blast
  from createSubscription_commit [OF ok] have
    "subscriptions d' = subscriptions d @ [new_subscription (u_id cu) (t_id plan) sid 30 e]"
    by auto
  moreover have "sub_server_id (new_subscription (u_id cu) (t_id plan) sid 30 e) = sid"
    by (simp add: new_subscription_def)
  ultimately have "\<exists>row s. subscriptions d' = subscriptions d @ [row] \<and> s \<in> set (servers d) \<and>
         srv_id s = sub_server_id row \<and> current_users d (srv_id s) < srv_max_users s"
    using s
    by (intro exI [of _ "new_subscription (u_id cu) (t_id plan) sid 30 e"] exI [of _ s]) simp
  then show ?thesis ..
qed

section \<open>Registration\<close>

text \<open>
  C9. With \<^verbatim>\<open>tg_id\<close> unique, \<open>createUser\<close> for a \<^verbatim>\<open>tg_id\<close> that has a row inserts
  nothing: it returns that row with the new username and \<^verbatim>\<open>updated_at\<close>, its
  \<^verbatim>\<open>id\<close>, \<^verbatim>\<open>balance\<close> and \<^verbatim>\<open>created_at\<close> as they were; the table has the same length
  and differs in that row only, so every balance is as before; the other tables are
  untouched.
\<close>

theorem createUser_existing_tg_id:
  assumes "distinct (map u_tg_id (users d))" and "old \<in> set (users d)" and "u_tg_id old = tgId"
  shows "\<exists>row d'. createUser d tgId username e = Inr (row, d') \<and>
           row = old\<lparr>u_username := username, u_updated_at := env_now e\<rparr> \<and>
           u_id row = u_id old \<and> u_tg_id row = u_tg_id old \<and>
           u_balance row = u_balance old \<and> u_created_at row = u_created_at old \<and>
           length (users d') = length (users d) \<and>
           users d' = map (\<lambda>u. if u = old then row else u) (users d) \<and>
           map u_balance (users d') = map u_balance (users d) \<and>
           map u_id (users d') = map u_id (users d) \<and>
           map u_created_at (users d') = map u_created_at (users d) \<and>
           tariffs d' = tariffs d \<and> servers d' = servers d \<and>
           subscriptions d' = subscriptions d"
proof -
  let ?upd = "\<lambda>u. u\<lparr>u_username := username, u_updated_at := env_now e\<rparr>"
  let ?users = "map (\<lambda>u. if u_tg_id u = tgId then ?upd u else u) (users d)"
  have found: "find (\<lambda>u. u_tg_id u = tgId) (users d) = Some old"
    using find_unique_key [OF assms(1,2)] assms(3) by simp
  then have res: "createUser d tgId username e = Inr (?upd old, d\<lparr>users := ?users\<rparr>)"
    by (simp add: createUser_def)
  have same: "(if u_tg_id u = tgId then ?upd u else u) = (if u = old then ?upd old else u)"
    if "u \<in> set (users d)" for u
  proof (cases "u_tg_id u = tgId")
    case True
    with assms that have "u = old"
      by (metis distinct_map inj_onD)
    then show ?thesis using assms(3) by simp
  next
    case False
    with assms(3) show ?thesis by auto
  qed
  then have users: "?users = map (\<lambda>u. if u = old then ?upd old else u) (users d)"
    by simp
  have "map u_balance ?users = map u_balance (users d)"
    "map u_id ?users = map u_id (users d)"
    "map u_created_at ?users = map u_created_at (users d)"
    by (simp_all add: comp_def if_distrib cong: if_cong)
  with res users show ?thesis
    by simp
qed

lemma shop_alice: "alice \<in> set (users shop)" "distinct (map u_tg_id (users shop))"
  "u_tg_id alice = 12345"
  by (simp_all add: shop_def alice_def)

theorem createUser_existing_tg_id_witness:
  "createUser shop 12345 (Some ''alice_2'') env2 =
     Inr (alice\<lparr>u_username := Some ''alice_2'', u_updated_at := 2000\<rparr>,
          shop\<lparr>users := [alice\<lparr>u_username := Some ''alice_2'', u_updated_at := 2000\<rparr>]\<rparr>)"
proof -
  from createUser_existing_tg_id [OF shop_alice(2,1,3), of "Some ''alice_2''" env2]
  obtain row d' where r: "createUser shop 12345 (Some ''alice_2'') env2 = Inr (row, d')"
    "row = alice\<lparr>u_username := Some ''alice_2'', u_updated_at := env_now env2\<rparr>"
    "users d' = map (\<lambda>u. if u = alice then row else u) (users shop)"
    "tariffs d' = tariffs shop" "servers d' = servers shop"
    "subscriptions d' = subscriptions shop"
    by blast
  then have "d' = shop\<lparr>users := [row]\<rparr>"
    by (simp add: shop_def)
  with r(1,2) show ?thesis
    by (simp add: env2_def)
qed

section \<open>Credential identifiers\<close>

lemma createUser_subscriptions:
  "createUser d tgId username e = Inr (u, d') \<Longrightarrow> subscriptions d' = subscriptions d"
  by (auto simp: createUser_def Let_def split: option.splits if_splits)

lemma createSubscription_xray_uuid_unique:
  assumes "xray_uuid_unique d"
  shows "xray_uuid_unique (snd (createSubscription d userId tariffId serverId days e))"
proof (cases "createSubscription_body d userId tariffId serverId days e")
  case (Inl err)
  then show ?thesis
    using assms by (simp add: createSubscription_def)
next
  case (Inr d')
  then have "\<exists>d1. subscriptions d1 = subscriptions d \<and>
      insert_subscription d1 (new_subscription userId tariffId serverId days e) = Inr d'"
    by (auto simp: createSubscription_body_def Let_def split: option.splits if_splits
        intro!: exI [of _ "d\<lparr>users := map f (users d)\<rparr>" for f])
  then obtain d1 where d1: "subscriptions d1 = subscriptions d"
    "insert_subscription d1 (new_subscription userId tariffId serverId days e) = Inr d'"
    by blast
  from d1(2) have "sub_xray_uuid (new_subscription userId tariffId serverId days e)
        \<notin> set (map sub_xray_uuid (subscriptions d1))"
    and "subscriptions d' = subscriptions d1 @ [new_subscription userId tariffId serverId days e]"
    by (auto simp: insert_subscription_def split: if_splits)
  with assms d1(1) have "xray_uuid_unique d'"
    by (simp add: xray_uuid_unique_def)
  with Inr show ?thesis
    by (simp add: createSubscription_def)
qed

lemma buy_action_xray_uuid_unique:
  assumes "xray_uuid_unique d"
  shows "xray_uuid_unique (snd (buy_action d cu tid e w))"
proof -
  obtain r d' where eq: "buy_action d cu tid e w = (r, d')"
    by (cases "buy_action d cu tid e w")
  from buy_action_cases [OF eq] show ?thesis
  proof
    assume "d' = d"
    with eq assms show ?thesis by simp
  next
    assume "\<exists>plan sid. find (\<lambda>t. t_id t = int tid) (getTariffs d) = Some plan \<and>
        findBestServer d (io_peer w) = Some sid \<and>
        createSubscription d (u_id cu) (t_id plan) sid 30 e = (Inr True, d') \<and>
        (r = Inr (ReplySuccess (t_name plan)) \<or>
         \<not> io_reply_resolves w 0 \<and> r = ctx_reply w 1 ReplyErrorProcessing)"
    then obtain plan :: tariff and sid where
      "createSubscription d (u_id cu) (t_id plan) sid 30 e = (Inr True, d')"
      by auto
    with createSubscription_xray_uuid_unique [OF assms, of "u_id cu" "t_id plan" sid 30 e] eq
    show ?thesis by simp
  qed
qed

lemma apply_op_xray_uuid_unique:
  assumes "xray_uuid_unique d"
  shows "xray_uuid_unique (apply_op d x)"
proof (cases x)
  case (OpCreateUser tgId username e)
  then show ?thesis
    using assms createUser_subscriptions [of d tgId username e]
    by (auto simp: xray_uuid_unique_def split: sum.splits)
next
  case (OpCreateSubscription userId tariffId serverId days e)
  then show ?thesis
    using createSubscription_xray_uuid_unique [OF assms] by simp
next
  case (OpBuy from_id from_username tariffId e_mw e w)
  show ?thesis
  proof (cases "createUser d from_id from_username e_mw")
    case (Inl err)
    with OpBuy assms show ?thesis by (simp add: on_buy_def)
  next
    case (Inr p)
    obtain cu d1 where p: "p = (cu, d1)" by (cases p)
    with Inr have "subscriptions d1 = subscriptions d"
      using createUser_subscriptions by blast
    with assms have "xray_uuid_unique d1"
      by (simp add: xray_uuid_unique_def)
    from buy_action_xray_uuid_unique [OF this] OpBuy Inr p show ?thesis
      by (simp add: on_buy_def)
  qed
next
  case (OpMenuDeposit cu wallet)
  with assms show ?thesis by (simp add: menu_deposit_def Let_def)
next
  case OpTick
  with assms show ?thesis by (simp add: paymentWatcherTick_def)
qed

lemma run_xray_uuid_unique:
  "xray_uuid_unique d \<Longrightarrow> xray_uuid_unique (run d ops)"
  unfolding run_def
  by (induction ops arbitrary: d) (simp_all add: apply_op_xray_uuid_unique)

text \<open>
  C6. The credential identifier is unique in every state the bot can reach. Started
  from a store whose \<^verbatim>\<open>subscriptions\<close> table is empty, as init.sql creates it, every
  sequence of operations ends in a state in which no two subscription rows carry the
  same \<^verbatim>\<open>xray_uuid\<close>; and from any state with distinct identifiers every single
  operation, \<open>createSubscription\<close> in particular, leads to a state with distinct
  identifiers: an insert that would repeat one breaks \<^verbatim>\<open>uq_xray_uuid\<close> and is rolled
  back.
\<close>

theorem xray_uuid_unique_reachable:
  "(subscriptions d0 = [] \<longrightarrow> distinct (map sub_xray_uuid (subscriptions (run d0 ops)))) \<and>
   (distinct (map sub_xray_uuid (subscriptions d)) \<longrightarrow>
      distinct (map sub_xray_uuid (subscriptions (apply_op d x))) \<and>
      distinct (map sub_xray_uuid
        (subscriptions (snd (createSubscription d userId tariffId serverId days e)))))"
proof (intro conjI impI)
  assume "subscriptions d0 = []"
  then have "xray_uuid_unique d0"
    by (simp add: xray_uuid_unique_def)
  from run_xray_uuid_unique [OF this]
  show "distinct (map sub_xray_uuid (subscriptions (run d0 ops)))"
    by (simp add: xray_uuid_unique_def)
next
  assume "distinct (map sub_xray_uuid (subscriptions d))"
  then have u: "xray_uuid_unique d"
    by (simp add: xray_uuid_unique_def)
  from apply_op_xray_uuid_unique [OF u]
  show "distinct (map sub_xray_uuid (subscriptions (apply_op d x)))"
    by (simp add: xray_uuid_unique_def)
  from createSubscription_xray_uuid_unique [OF u]
  show "distinct (map sub_xray_uuid
        (subscriptions (snd (createSubscription d userId tariffId serverId days e))))"
    by (simp add: xray_uuid_unique_def)
qed

lemma shop_run:
  "run shop [OpCreateSubscription (u_id alice) 1 (srv_id node_a) 30 env1,
             OpCreateSubscription (u_id alice) 1 (srv_id node_a) 30 env_clash] = shop_full"
  by (simp add: run_def shop_create shop_full_clash)

theorem xray_uuid_unique_reachable_witness:
  "subscriptions shop = [] \<and>
   run shop [OpCreateSubscription (u_id alice) 1 (srv_id node_a) 30 env1,
             OpCreateSubscription (u_id alice) 1 (srv_id node_a) 30 env_clash] = shop_full \<and>
   distinct (map sub_xray_uuid (subscriptions shop_full)) \<and>
   distinct (map sub_xray_uuid (subscriptions
     (snd (createSubscription shop_full (u_id alice) 1 (srv_id node_a) 30 env2))))"
proof -
  have empty: "subscriptions shop = []"
    by (simp add: shop_def)
  note inst = xray_uuid_unique_reachable [of shop
      "[OpCreateSubscription (u_id alice) 1 (srv_id node_a) 30 env1,
        OpCreateSubscription (u_id alice) 1 (srv_id node_a) 30 env_clash]"
      shop_full OpTick "u_id alice" 1 "srv_id node_a" 30 env2]
  from inst empty have full: "distinct (map sub_xray_uuid (subscriptions shop_full))"
    by (simp add: shop_run)
  with inst have "distinct (map sub_xray_uuid (subscriptions
     (snd (createSubscription shop_full (u_id alice) 1 (srv_id node_a) 30 env2))))"
    by blast
  with empty full shop_run show ?thesis
    by simp
qed

section \<open>Payment watcher\<close>

text \<open>
  C10. Any number of ticks of the payment watcher leaves the whole store, and so every
  balance, as it was; the deposit menu, which tells the user to send funds with the
  comment \<^verbatim>\<open>user-<tg_id>\<close>, does not write either.
\<close>

theorem paymentWatcherTick_no_effect:
  "(paymentWatcherTick ^^ n) d = d \<and>
   map u_balance (users ((paymentWatcherTick ^^ n) d)) = map u_balance (users d) \<and>
   run d (replicate n OpTick) = d \<and>
   snd (menu_deposit d ctx_user wallet) = d \<and>
   dep_comment (fst (menu_deposit d ctx_user wallet)) = ''user-'' @ toString (u_tg_id ctx_user)"
proof -
  have ticks: "(paymentWatcherTick ^^ n) d = d"
    by (induction n) (simp_all add: paymentWatcherTick_def)
  have "foldl apply_op d (replicate n OpTick) = d"
    by (induction n) (simp_all add: paymentWatcherTick_def)
  then show ?thesis
    using ticks by (simp add: run_def menu_deposit_def Let_def)
qed

theorem paymentWatcherTick_no_effect_witness:
  "(paymentWatcherTick ^^ 3) shop = shop \<and>
   run shop (replicate 3 OpTick) = shop \<and>
   snd (menu_deposit shop alice ''EQ-wallet'') = shop"
  using paymentWatcherTick_no_effect [of 3 shop alice "''EQ-wallet''"] by simp

section \<open>Expiry sweeper\<close>

text \<open>
  C7. For every subscription and sweep time, the sweep turns an \<^verbatim>\<open>active\<close> subscription
  into an \<^verbatim>\<open>expired\<close> one exactly when its expiry timestamp is strictly before the sweep
  time, and changes the status of no other row; a subscription that is \<^verbatim>\<open>expired\<close>
  already comes out of any sweep as it went in. On the store a sweep maps every row so,
  leaves the other tables alone, and a second sweep at the same time changes nothing and
  triggers nothing.
\<close>

theorem expirySweep_transitions:
  "((sub_status s = active \<and> sub_status (sweep_row now s) = expired) \<longleftrightarrow>
      (sub_status s = active \<and> sub_expire_date s < now)) \<and>
   (sub_status (sweep_row now s) \<noteq> sub_status s \<longrightarrow>
      sub_status s = active \<and> sub_expire_date s < now) \<and>
   (sub_status s = expired \<longrightarrow> sweep_row now s = s) \<and>
   subscriptions (snd (expirySweep now d)) = map (sweep_row now) (subscriptions d) \<and>
   expirySweep now (snd (expirySweep now d)) = ([], snd (expirySweep now d)) \<and>
   tariffs (snd (expirySweep now d)) = tariffs d \<and>
   servers (snd (expirySweep now d)) = servers d \<and>
   users (snd (expirySweep now d)) = users d"
proof -
  have again: "sweep_row now (sweep_row now x) = sweep_row now x" for x
    by (simp add: sweep_row_def sweep_due_def)
  have none: "\<not> sweep_due now (sweep_row now x)" for x
    by (simp add: sweep_row_def sweep_due_def)
  have "expirySweep now (snd (expirySweep now d)) = ([], snd (expirySweep now d))"
    by (simp add: expirySweep_def again none comp_def)
  then show ?thesis
    by (auto simp: sweep_row_def sweep_due_def expirySweep_def)
qed

theorem expirySweep_transitions_witness:
  "sub_status (new_subscription (u_id alice) 1 (srv_id node_a) 30 env1) = active \<and>
   sub_expire_date (new_subscription (u_id alice) 1 (srv_id node_a) 30 env1) = 2592000001000 \<and>
   sub_status (sweep_row 2592000001001
      (new_subscription (u_id alice) 1 (srv_id node_a) 30 env1)) = expired \<and>
   sub_status (sweep_row 2592000001000
      (new_subscription (u_id alice) 1 (srv_id node_a) 30 env1)) = active \<and>
   sweep_row 2592000002000
     (sweep_row 2592000001001 (new_subscription (u_id alice) 1 (srv_id node_a) 30 env1))
     = sweep_row 2592000001001 (new_subscription (u_id alice) 1 (srv_id node_a) 30 env1)"
proof -
  let ?s = "new_subscription (u_id alice) 1 (srv_id node_a) 30 env1"
  have s: "sub_status ?s = active" "sub_expire_date ?s = 2592000001000"
    by (simp_all add: new_subscription_def env1_def)
  from expirySweep_transitions [of ?s 2592000001001] s
  have e: "sub_status (sweep_row 2592000001001 ?s) = expired"
    by simp
  from expirySweep_transitions [of ?s 2592000001000] s
  have a: "sub_status (sweep_row 2592000001000 ?s) = active"
    by (cases "sub_status (sweep_row 2592000001000 ?s)") auto
  from expirySweep_transitions [of "sweep_row 2592000001001 ?s" 2592000002000] e
  have "sweep_row 2592000002000 (sweep_row 2592000001001 ?s) = sweep_row 2592000001001 ?s"
    by blast
  with s e a show ?thesis
    by simp
qed

section \<open>Node client\<close>

lemma AddUser_twice:
  "snd (AddUser (snd (AddUser n cid tier label)) cid tier' label') = snd (AddUser n cid tier label)"
  by (simp add: AddUser_def)

lemma RemoveUser_twice:
  "snd (RemoveUser (snd (RemoveUser n cid)) cid) = snd (RemoveUser n cid)"
  by (simp add: RemoveUser_def)

lemma addCredential_from_cases:
  "addCredential_from k i ch n cid tier label = (Inr (), snd (AddUser n cid tier label)) \<or>
   (\<exists>err. addCredential_from k i ch n cid tier label = (Inl err, n))"
  by (induction k arbitrary: i) (auto split: attempt.splits add_response.splits prod.splits)

lemma removeCredential_from_cases:
  "removeCredential_from k i ch n cid = (Inr (), snd (RemoveUser n cid)) \<or>
   (\<exists>err. removeCredential_from k i ch n cid = (Inl err, n))"
  by (induction k arbitrary: i) (auto split: attempt.splits remove_response.splits prod.splits)

lemma addCredential_from_same_outcome:
  "fst (addCredential_from k i ch n' cid tier' label') = fst (addCredential_from k i ch n cid tier label)"
  by (induction k arbitrary: i) (auto split: attempt.splits add_response.splits prod.splits)

lemma removeCredential_from_same_outcome:
  "fst (removeCredential_from k i ch n' cid) = fst (removeCredential_from k i ch n cid)"
  by (induction k arbitrary: i) (auto split: attempt.splits remove_response.splits prod.splits)

lemma addCredential_after_success:
  assumes "fst (addCredential k ch n cid tier label) = Inr ()"
  shows "snd (addCredential k' ch' (snd (addCredential k ch n cid tier label)) cid tier' label')
           = snd (addCredential k ch n cid tier label)"
proof -
  from assms addCredential_from_cases [of k 0 ch n cid tier label]
  have first: "snd (addCredential k ch n cid tier label) = snd (AddUser n cid tier label)"
    by (auto simp: addCredential_def)
  from addCredential_from_cases [of k' 0 ch' "snd (AddUser n cid tier label)" cid tier' label']
  show ?thesis
    unfolding first by (auto simp: addCredential_def AddUser_twice)
qed

lemma removeCredential_after_success:
  assumes "fst (removeCredential k ch n cid) = Inr ()"
  shows "snd (removeCredential k' ch' (snd (removeCredential k ch n cid)) cid)
           = snd (removeCredential k ch n cid)"
proof -
  from assms removeCredential_from_cases [of k 0 ch n cid]
  have first: "snd (removeCredential k ch n cid) = snd (RemoveUser n cid)"
    by (auto simp: removeCredential_def)
  from removeCredential_from_cases [of k' 0 ch' "snd (RemoveUser n cid)" cid]
  show ?thesis
    unfolding first by (auto simp: removeCredential_def RemoveUser_twice)
qed

lemma addCredential_same_channel:
  "addCredential k ch (snd (addCredential k ch n cid tier label)) cid tier label
     = addCredential k ch n cid tier label"
proof (cases "fst (addCredential k ch n cid tier label)")
  case (Inl err)
  with addCredential_from_cases [of k 0 ch n cid tier label]
  have "snd (addCredential k ch n cid tier label) = n"
    by (auto simp: addCredential_def)
  then show ?thesis by simp
next
  case (Inr u)
  then have ok: "fst (addCredential k ch n cid tier label) = Inr ()" by simp
  have "fst (addCredential k ch (snd (addCredential k ch n cid tier label)) cid tier label)
          = fst (addCredential k ch n cid tier label)"
    by (simp add: addCredential_def addCredential_from_same_outcome)
  moreover note addCredential_after_success [OF ok, of k ch tier label]
  ultimately show ?thesis
    by (simp add: prod_eq_iff)
qed

lemma removeCredential_same_channel:
  "removeCredential k ch (snd (removeCredential k ch n cid)) cid = removeCredential k ch n cid"
proof (cases "fst (removeCredential k ch n cid)")
  case (Inl err)
  with removeCredential_from_cases [of k 0 ch n cid]
  have "snd (removeCredential k ch n cid) = n"
    by (auto simp: removeCredential_def)
  then show ?thesis by simp
next
  case (Inr u)
  then have ok: "fst (removeCredential k ch n cid) = Inr ()" by simp
  have "fst (removeCredential k ch (snd (removeCredential k ch n cid)) cid)
          = fst (removeCredential k ch n cid)"
    by (simp add: removeCredential_def removeCredential_from_same_outcome)
  moreover note removeCredential_after_success [OF ok, of k ch]
  ultimately show ?thesis
    by (simp add: prod_eq_iff)
qed

lemma addCredential_no_duplicate:
  assumes "distinct (ListUsers n)"
  shows "distinct (ListUsers (snd (addCredential k ch n cid tier label)))"
  using addCredential_from_cases [of k 0 ch n cid tier label] assms
  by (auto simp: addCredential_def AddUser_def ListUsers_def)


text \<open>
  C8. \<open>addCredential\<close> and \<open>removeCredential\<close> are idempotent. Calling either twice with
  the same arguments over a channel that behaves the same gives the result and node
  state of calling it once. After a call that succeeded, a second call with the same id,
  whatever its tier, label and channel, leaves the node as the first call left it: the
  node's "already exists" or "not found" answer is taken as success. Adding never
  loads an id twice. A call whose first attempt reaches the node succeeds, after which
  the id is loaded (added) or absent (removed).
\<close>

theorem credential_calls_idempotent:
  "addCredential k ch (snd (addCredential k ch n cid tier label)) cid tier label
     = addCredential k ch n cid tier label \<and>
   removeCredential k ch (snd (removeCredential k ch n cid)) cid = removeCredential k ch n cid \<and>
   (fst (addCredential k ch n cid tier label) = Inr () \<longrightarrow>
      snd (addCredential k' ch' (snd (addCredential k ch n cid tier label)) cid tier' label')
        = snd (addCredential k ch n cid tier label)) \<and>
   (fst (removeCredential k ch n cid) = Inr () \<longrightarrow>
      snd (removeCredential k' ch' (snd (removeCredential k ch n cid)) cid)
        = snd (removeCredential k ch n cid)) \<and>
   (distinct (ListUsers n) \<longrightarrow>
      distinct (ListUsers (snd (addCredential k ch n cid tier label)))) \<and>
   (0 < k \<and> ch 0 = Reached \<longrightarrow>
      fst (addCredential k ch n cid tier label) = Inr () \<and>
      cid \<in> set (ListUsers (snd (addCredential k ch n cid tier label))) \<and>
      fst (removeCredential k ch n cid) = Inr () \<and>
      cid \<notin> set (ListUsers (snd (removeCredential k ch n cid))))"
proof (intro conjI impI)
  show "addCredential k ch (snd (addCredential k ch n cid tier label)) cid tier label
     = addCredential k ch n cid tier label"
    by (rule addCredential_same_channel)
  show "removeCredential k ch (snd (removeCredential k ch n cid)) cid = removeCredential k ch n cid"
    by (rule removeCredential_same_channel)
  show "snd (addCredential k' ch' (snd (addCredential k ch n cid tier label)) cid tier' label')
        = snd (addCredential k ch n cid tier label)"
    if "fst (addCredential k ch n cid tier label) = Inr ()"
    using that by (rule addCredential_after_success)
  show "snd (removeCredential k' ch' (snd (removeCredential k ch n cid)) cid)
        = snd (removeCredential k ch n cid)"
    if "fst (removeCredential k ch n cid) = Inr ()"
    using that by (rule removeCredential_after_success)
  show "distinct (ListUsers (snd (addCredential k ch n cid tier label)))"
    if "distinct (ListUsers n)"
    using that by (rule addCredential_no_duplicate)
next
  assume r: "0 < k \<and> ch 0 = Reached"
  then obtain j where k: "k = Suc j"
    by (cases k) auto
  show "fst (addCredential k ch n cid tier label) = Inr ()"
    using r k by (simp add: addCredential_def AddUser_def)
  show "cid \<in> set (ListUsers (snd (addCredential k ch n cid tier label)))"
    using r k by (simp add: addCredential_def AddUser_def ListUsers_def)
  show "fst (removeCredential k ch n cid) = Inr ()"
    using r k by (simp add: removeCredential_def RemoveUser_def)
  show "cid \<notin> set (ListUsers (snd (removeCredential k ch n cid)))"
    using r k by (auto simp: removeCredential_def RemoveUser_def ListUsers_def)
qed

lemma flaky_add:
  "addCredential 3 flaky [] (cred_id cred1) 1 ''user_1_c0ffee00'' = (Inr (), [cred1])"
  "addCredential 3 flaky [cred1] (cred_id cred1) 2 ''other'' = (Inr (), [cred1])"
  "removeCredential 3 flaky [cred1] (cred_id cred1) = (Inr (), [])"
  by (simp_all add: addCredential_def removeCredential_def eval_nat_numeral flaky_def
      AddUser_def RemoveUser_def cred1_def)

theorem credential_calls_idempotent_witness:
  "addCredential 3 flaky [] (cred_id cred1) 1 ''user_1_c0ffee00'' = (Inr (), [cred1]) \<and>
   snd (addCredential 3 flaky [cred1] (cred_id cred1) 2 ''other'') = [cred1] \<and>
   removeCredential 3 flaky [cred1] (cred_id cred1) = (Inr (), []) \<and>
   snd (removeCredential 1 flaky [] (cred_id cred1)) = [] \<and>
   distinct (ListUsers (snd (addCredential 3 flaky [] (cred_id cred1) 1 ''user_1_c0ffee00''))) \<and>
   fst (addCredential 1 (\<lambda>i. Reached) [cred1] (cred_id cred1) 1 ''user_1_c0ffee00'') = Inr () \<and>
   fst (removeCredential 1 (\<lambda>i. Reached) [] (cred_id cred1)) = Inr ()"
proof -
  note at_empty = credential_calls_idempotent
    [of 3 flaky "[]" "cred_id cred1" 1 "''user_1_c0ffee00''" 3 flaky 2 "''other''"]
  from at_empty flaky_add(1)
  have again: "snd (addCredential 3 flaky [cred1] (cred_id cred1) 2 ''other'') = [cred1]"
    by simp
  have "distinct (ListUsers [])"
    by (simp add: ListUsers_def)
  with at_empty
  have once: "distinct (ListUsers (snd (addCredential 3 flaky [] (cred_id cred1) 1 ''user_1_c0ffee00'')))"
    by blast
  from credential_calls_idempotent [of 3 flaky "[cred1]" "cred_id cred1" 1 "''x''" 1 flaky]
    flaky_add(3)
  have gone: "snd (removeCredential 1 flaky [] (cred_id cred1)) = []"
    by simp
  from credential_calls_idempotent
    [of 1 "\<lambda>i. Reached" "[cred1]" "cred_id cred1" 1 "''user_1_c0ffee00''"]
  have known: "fst (addCredential 1 (\<lambda>i. Reached) [cred1] (cred_id cred1) 1 ''user_1_c0ffee00'') = Inr ()"
    by simp
  from credential_calls_idempotent [of 1 "\<lambda>i. Reached" "[]" "cred_id cred1"]
  have absent: "fst (removeCredential 1 (\<lambda>i. Reached) [] (cred_id cred1)) = Inr ()"
    by simp
  from again once gone known absent flaky_add show ?thesis
    by simp
qed

end
